theory Spec2Isabelle
  imports Complex_Main "HOL-Library.Sublist"
begin

unbundle bit_operations_syntax

section \<open>JavaScript values used by src/src/App.jsx\<close>

text \<open>
  A JavaScript string is a sequence of UTF-16 code units; \<open>codes\<close> turns an ASCII
  literal into that sequence. \<open>charCodeAt\<close> returns the code unit at an index and
  \<open>NaN\<close> (here \<open>None\<close>) outside the string.
\<close>

type_synonym jsstring = "nat list"

definition codes :: "string \<Rightarrow> jsstring" where
  "codes s = map of_char s"

definition charCodeAt :: "jsstring \<Rightarrow> nat \<Rightarrow> int option" where
  "charCodeAt s i = (if i < length s then Some (int (s ! i)) else None)"

text \<open>
  The bitwise operators work on 32-bit signed integers: \<open>toInt32\<close> is the
  wrap-around of ECMAScript's ToInt32 on an integral number, and \<open>NaN\<close> converts
  to 0. A shift count is taken modulo 32.
\<close>

definition toInt32 :: "int \<Rightarrow> int" where
  "toInt32 x = (x + 2 ^ 31) mod 2 ^ 32 - 2 ^ 31"

definition nanToInt32 :: "int option \<Rightarrow> int" where
  "nanToInt32 b = (case b of None \<Rightarrow> 0 | Some v \<Rightarrow> toInt32 v)"

definition js_and :: "int \<Rightarrow> int \<Rightarrow> int" where
  "js_and a b = toInt32 (toInt32 a AND toInt32 b)"

definition js_or :: "int \<Rightarrow> int \<Rightarrow> int" where
  "js_or a b = toInt32 (toInt32 a OR toInt32 b)"

definition js_shl :: "int \<Rightarrow> nat \<Rightarrow> int" where
  "js_shl a n = toInt32 (push_bit (n mod 32) (toInt32 a))"

definition js_sar :: "int \<Rightarrow> nat \<Rightarrow> int" where
  "js_sar a n = drop_bit (n mod 32) (toInt32 a)"

definition js_not :: "int \<Rightarrow> int" where
  "js_not a = NOT (toInt32 a)"

text \<open>\<open>b >= 0x20\<close> is false when \<open>b\<close> is \<open>NaN\<close>.\<close>

definition js_ge :: "int option \<Rightarrow> int \<Rightarrow> bool" where
  "js_ge b c = (case b of None \<Rightarrow> False | Some v \<Rightarrow> c \<le> v)"

section \<open>decodePolyline (App.jsx, lines 302-331)\<close>

text \<open>
  The inner \<open>do ... while (b >= 0x20)\<close> loop. It is entered with the scan index,
  the shift and the partial result, and returns the index and the result it leaves.
  \<open>b = encoded.charCodeAt(index++) - 63\<close> is \<open>NaN\<close> past the end of the string.
\<close>

function decode_group :: "jsstring \<Rightarrow> nat \<Rightarrow> nat \<Rightarrow> int \<Rightarrow> nat \<times> int" where
  "decode_group encoded index shift result =
     (let b = map_option (\<lambda>c. c - 63) (charCodeAt encoded index);
          index' = index + 1;
          result' = js_or result (js_shl (js_and (nanToInt32 b) 0x1f) shift);
          shift' = shift + 5
      in if js_ge b 0x20 then decode_group encoded index' shift' result'
         else (index', result'))"
  by pat_completeness auto
termination
  by (relation "measure (\<lambda>(encoded, index, shift, result). length encoded - index)")
    (auto simp: js_ge_def charCodeAt_def split: option.splits if_splits)

declare decode_group.simps [simp del]

text \<open>\<open>(result & 1) ? ~(result >> 1) : (result >> 1)\<close>\<close>

definition zigzag_decode :: "int \<Rightarrow> int" where
  "zigzag_decode result =
     (if js_and result 1 \<noteq> 0 then js_not (js_sar result 1) else js_sar result 1)"

lemma decode_group_index: "index < fst (decode_group encoded index shift result)"
proof (induction encoded index shift result rule: decode_group.induct)
  case (1 encoded index shift result)
  show ?case
  proof (cases "js_ge (map_option (\<lambda>c. c - 63) (charCodeAt encoded index)) 0x20")
    case True
    with "1.IH" [OF refl refl refl refl True] show ?thesis
      by (subst decode_group.simps) (simp add: Let_def)
  next
    case False
    then show ?thesis
      by (subst decode_group.simps) (simp add: Let_def)
  qed
qed

lemma decode_group_advances:
  "(index', result') = decode_group encoded index shift result \<Longrightarrow> index < index'"
  using decode_group_index [of index encoded shift result] by (metis fst_conv)

text \<open>
  The outer \<open>while (index < len)\<close> loop: one latitude group, one longitude group,
  one point pushed. \<open>lat\<close> and \<open>lng\<close> hold integers; the pushed pair is
  \<open>[lat / 1e5, lng / 1e5]\<close>.
\<close>

function decode_loop ::
  "jsstring \<Rightarrow> nat \<Rightarrow> int \<Rightarrow> int \<Rightarrow> (real \<times> real) list \<Rightarrow> (real \<times> real) list" where
  "decode_loop encoded index lat lng points =
     (if index < length encoded then
        (let (index1, result1) = decode_group encoded index 0 0;
             dlat = zigzag_decode result1;
             lat' = lat + dlat;
             (index2, result2) = decode_group encoded index1 0 0;
             dlng = zigzag_decode result2;
             lng' = lng + dlng
         in decode_loop encoded index2 lat' lng'
              (points @ [(real_of_int lat' / 100000, real_of_int lng' / 100000)]))
      else points)"
  by pat_completeness auto
termination
proof (relation "measure (\<lambda>(encoded, index, lat, lng, points). length encoded - index)",
    goal_cases)
  case 1
  show ?case by simp
next
  case (2 encoded index lat lng points x index1 result1 dlat lat' xa index2 result2)
  have "index < index1"
    using 2 decode_group_advances by blast
  moreover have "index1 < index2"
    using 2 decode_group_advances by blast
  ultimately show ?case
    using 2 by simp
qed

declare decode_loop.simps [simp del]

definition decodePolyline :: "jsstring \<Rightarrow> (real \<times> real) list" where
  "decodePolyline encoded = decode_loop encoded 0 0 0 []"

section \<open>Utility functions (App.jsx, lines 15-35)\<close>

text \<open>
  Numbers are modelled by the reals, with exact arithmetic: the rounding of IEEE
  doubles, \<open>NaN\<close>, infinities and the sign of zero are left out. The \<open>latitude\<close>
  and \<open>longitude\<close> fields of a point hold decimal strings in the source, written by
  \<open>toString\<close> or \<open>toFixed(7)\<close> and read back by \<open>parseFloat\<close> at every use; a
  field is modelled by the number \<open>parseFloat\<close> reads from it.
\<close>

definition toRadians :: "real \<Rightarrow> real" where
  "toRadians degrees = degrees * pi / 180"

definition toDegrees :: "real \<Rightarrow> real" where
  "toDegrees radians = radians * 180 / pi"

text \<open>\<open>Math.atan2(y, x)\<close>: the angle of the point \<open>(x, y)\<close>, in \<open>(-pi, pi]\<close>.\<close>

definition atan2 :: "real \<Rightarrow> real \<Rightarrow> real" where
  "atan2 y x =
     (if 0 < x then arctan (y / x)
      else if x < 0 then (if 0 \<le> y then arctan (y / x) + pi else arctan (y / x) - pi)
      else if 0 < y then pi / 2
      else if y < 0 then - (pi / 2)
      else 0)"

text \<open>The \<open>%\<close> operator on numbers: the remainder of the division truncated towards zero.\<close>

definition js_rem :: "real \<Rightarrow> real \<Rightarrow> real" where
  "js_rem a n = a - n * of_int (if 0 \<le> a / n then \<lfloor>a / n\<rfloor> else \<lceil>a / n\<rceil>)"

definition calculateDistance :: "real \<Rightarrow> real \<Rightarrow> real \<Rightarrow> real \<Rightarrow> real" where
  "calculateDistance lat1 lon1 lat2 lon2 =
     (let R = 6371000;
          dLat = toRadians (lat2 - lat1);
          dLon = toRadians (lon2 - lon1);
          a = sin (dLat / 2) * sin (dLat / 2) +
              cos (toRadians lat1) * cos (toRadians lat2) *
              sin (dLon / 2) * sin (dLon / 2);
          c = 2 * atan2 (sqrt a) (sqrt (1 - a))
      in R * c)"

definition calculateBearing :: "real \<Rightarrow> real \<Rightarrow> real \<Rightarrow> real \<Rightarrow> real" where
  "calculateBearing lat1 lon1 lat2 lon2 =
     (let dLon = toRadians (lon2 - lon1);
          y = sin dLon * cos (toRadians lat2);
          x = cos (toRadians lat1) * sin (toRadians lat2) -
              sin (toRadians lat1) * cos (toRadians lat2) * cos dLon
      in js_rem (toDegrees (atan2 y x) + 360) 360)"

text \<open>
  \<open>x.toFixed(7)\<close>, read back as a number: the nearest multiple of \<open>10\<^sup>-\<^sup>7\<close>, a tie
  going to the larger magnitude.
\<close>

definition toFixed7 :: "real \<Rightarrow> real" where
  "toFixed7 x =
     (if x < 0 then - (of_int \<lfloor>- x * 10 ^ 7 + 1 / 2\<rfloor> / 10 ^ 7)
      else of_int \<lfloor>x * 10 ^ 7 + 1 / 2\<rfloor> / 10 ^ 7)"

section \<open>Points\<close>

record 't point =
  latitude :: real
  longitude :: real
  createdAt :: 't

section \<open>applyKalmanFilter (App.jsx, lines 38-75)\<close>

text \<open>
  The \<open>for (const point of points)\<close> loop with the variables it updates: the one
  covariance \<open>p\<close>, the two estimates and the output array. \<open>q\<close> and \<open>r\<close> are the
  constants declared before the loop; \<open>k\<close> is assigned twice in the body.
\<close>

fun kalman_loop ::
  "real \<Rightarrow> real \<Rightarrow> real \<Rightarrow> 't point list \<Rightarrow> 't point list \<Rightarrow> 't point list" where
  "kalman_loop p xLat xLng [] smoothed = smoothed"
| "kalman_loop p xLat xLng (point # rest) smoothed =
     (let q = 0.00001;
          r = 0.0001;
          measurementLat = latitude point;
          measurementLng = longitude point;
          p1 = p + q;
          k1 = p1 / (p1 + r);
          xLat' = xLat + k1 * (measurementLat - xLat);
          p2 = (1 - k1) * p1;
          p3 = p2 + q;
          k2 = p3 / (p3 + r);
          xLng' = xLng + k2 * (measurementLng - xLng);
          p4 = (1 - k2) * p3
      in kalman_loop p4 xLat' xLng' rest
           (smoothed @ [\<lparr>latitude = toFixed7 xLat', longitude = toFixed7 xLng',
                          createdAt = createdAt point\<rparr>]))"

definition applyKalmanFilter :: "'t point list \<Rightarrow> 't point list" where
  "applyKalmanFilter points =
     (if length points = 0 then []
      else kalman_loop 1.0 (latitude (points ! 0)) (longitude (points ! 0)) points [])"

section \<open>removeZigzags (App.jsx, lines 78-105)\<close>

text \<open>The value of \<open>diff\<close> that the loop body computes at index \<open>i\<close>.\<close>

definition turn_diff :: "'t point list \<Rightarrow> nat \<Rightarrow> real" where
  "turn_diff points i =
     (let prev = points ! (i - 1);
          curr = points ! i;
          next = points ! (i + 1);
          bearing1 = calculateBearing (latitude prev) (longitude prev)
                       (latitude curr) (longitude curr);
          bearing2 = calculateBearing (latitude curr) (longitude curr)
                       (latitude next) (longitude next);
          diff = \<bar>bearing2 - bearing1\<bar>
      in if diff > 180 then 360 - diff else diff)"

definition removeZigzags :: "'t point list \<Rightarrow> real \<Rightarrow> 't point list" where
  "removeZigzags points threshold =
     (if length points < 3 then points
      else fold (\<lambda>i result. if turn_diff points i < threshold then result @ [points ! i]
                             else result)
             [1..<length points - 1] [points ! 0]
           @ [points ! (length points - 1)])"

section \<open>thinPoints (App.jsx, lines 108-124)\<close>

definition thinPoints :: "'t point list \<Rightarrow> real \<Rightarrow> 't point list" where
  "thinPoints points minDistance =
     (if length points < 2 then points
      else fold (\<lambda>i result.
                   let lastKept = result ! (length result - 1);
                       current = points ! i;
                       d = calculateDistance (latitude lastKept) (longitude lastKept)
                             (latitude current) (longitude current)
                   in if d \<ge> minDistance then result @ [current] else result)
             [1..<length points] [points ! 0])"

section \<open>The component state and the external services\<close>

text \<open>
  An element of the trajectory source's \<open>data\<close> array. \<open>coordinates\<close> is
  \<open>element?.location?.coordinates\<close> when that is an array (\<open>None\<close> otherwise), a
  \<open>[longitude, latitude]\<close> pair in a well-formed fix; \<open>accuracy\<close> is \<open>None\<close> when the
  property is absent.
\<close>

record 't raw_fix =
  coordinates :: "real list option"
  accuracy :: "real option"
  location_captured_on_timestamp :: 't

text \<open>
  What a service call does: \<open>SnapFails\<close> and \<open>RequestFails\<close> stand for every way
  the awaited \<open>fetch\<close>, \<open>response.json()\<close> or the reading of the response throws.
  A snap response carries \<open>data?.locations\<close> (\<open>None\<close> when missing), each entry
  \<open>null\<close> or a matched \<open>[longitude, latitude]\<close> location. A directions response
  either has no \<open>routes[0]\<close> or has one, with its \<open>distance\<close> and \<open>geometry\<close>.
\<close>

datatype snap_response = SnapFails | SnapLocations "(real \<times> real) option list option"

datatype dir_response = RequestFails | NoRoute | Route real jsstring

datatype js_error = ServiceError

text \<open>The requests sent, each with its \<open>(longitude, latitude)\<close> pairs in order.\<close>

datatype request = SnapRequest "(real \<times> real) list" | DirectionsRequest "(real \<times> real) list"

text \<open>
  The \<open>useState\<close> variables of \<open>MapTracker\<close> that the pipeline sets, and \<open>sent\<close>,
  the trace of the requests issued so far (not a variable of the program).
\<close>

record 't tracker =
  points :: "'t point list"
  filteredPoints :: "'t point list"
  orsPoints :: "'t point list"
  mapboxPoints :: "(real \<times> real) list"
  totalDistance :: real
  center :: "real \<times> real"
  sent :: "request list"

text \<open>The values the \<open>useState\<close> calls start from (lines 140-145).\<close>

definition initial_tracker :: "'t tracker" where
  "initial_tracker =
     \<lparr>points = [], filteredPoints = [], orsPoints = [], mapboxPoints = [],
      totalDistance = 0, center = (13.0827, 80.2707), sent = []\<rparr>"

section \<open>fetchMapboxRoute (App.jsx, lines 264-299)\<close>

text \<open>\<open>xs.slice(a, b)\<close> for indices \<open>0 \<le> a\<close> and \<open>0 \<le> b\<close>.\<close>

definition js_slice :: "'a list \<Rightarrow> nat \<Rightarrow> nat \<Rightarrow> 'a list" where
  "js_slice xs a b = drop a (take b xs)"

text \<open>
  The \<open>for (let i = 0; i < pointsForRoute.length; i += 25)\<close> loop. It returns the
  trace of requests and either the error thrown inside the \<open>try\<close> block or the values
  of \<open>allPoints\<close> and \<open>totalDist\<close> when the loop is left. The service is given the
  start index of the chunk and its waypoints.
\<close>

function route_loop ::
  "(nat \<Rightarrow> (real \<times> real) list \<Rightarrow> dir_response) \<Rightarrow> 't point list \<Rightarrow> nat \<Rightarrow>
   (real \<times> real) list \<Rightarrow> real \<Rightarrow> request list \<Rightarrow>
   request list \<times> (js_error + (real \<times> real) list \<times> real)" where
  "route_loop directions pointsForRoute i allPoints totalDist reqs =
     (if i < length pointsForRoute then
        (let segment = js_slice pointsForRoute i (min (i + 25) (length pointsForRoute))
         in if length segment < 2 then (reqs, Inr (allPoints, totalDist))
            else
              (let waypoints = map (\<lambda>p. (longitude p, latitude p)) segment;
                   reqs' = reqs @ [DirectionsRequest waypoints]
               in case directions i waypoints of
                    RequestFails \<Rightarrow> (reqs', Inl ServiceError)
                  | NoRoute \<Rightarrow>
                      route_loop directions pointsForRoute (i + 25) allPoints totalDist reqs'
                  | Route distance geometry \<Rightarrow>
                      route_loop directions pointsForRoute (i + 25)
                        (allPoints @ decodePolyline geometry) (totalDist + distance) reqs'))
      else (reqs, Inr (allPoints, totalDist)))"
  by pat_completeness auto
termination
  by (relation "measure (\<lambda>(directions, pointsForRoute, i, allPoints, totalDist, reqs).
        length pointsForRoute - i)") auto

declare route_loop.simps [simp del]

text \<open>
  The \<open>catch\<close> block only logs to the console, so after an error neither
  \<open>setMapboxPoints\<close> nor \<open>setTotalDistance\<close> has run.
\<close>

definition fetchMapboxRoute ::
  "(nat \<Rightarrow> (real \<times> real) list \<Rightarrow> dir_response) \<Rightarrow> 't point list \<Rightarrow> 't tracker \<Rightarrow> 't tracker" where
  "fetchMapboxRoute directions pointsForRoute st =
     (case route_loop directions pointsForRoute 0 [] 0 (sent st) of
        (reqs, Inl err) \<Rightarrow> st\<lparr>sent := reqs\<rparr>
      | (reqs, Inr (allPoints, totalDist)) \<Rightarrow>
          st\<lparr>sent := reqs, mapboxPoints := allPoints, totalDistance := totalDist\<rparr>)"

section \<open>fetchORSSnap (App.jsx, lines 226-262)\<close>

text \<open>\<open>locations.filter(loc => loc !== null)\<close>\<close>

fun non_null :: "'a option list \<Rightarrow> 'a list" where
  "non_null [] = []"
| "non_null (None # locs) = non_null locs"
| "non_null (Some loc # locs) = loc # non_null locs"

text \<open>
  The value of \<open>snappedPoints\<close> (lines 247-255); \<open>now\<close> gives the value of
  \<open>Date.now()\<close> for the snapped point of each index.
\<close>

definition snapped_points :: "(nat \<Rightarrow> 't) \<Rightarrow> (real \<times> real) option list option \<Rightarrow> 't point list" where
  "snapped_points now data =
     (let locations = (case data of None \<Rightarrow> [] | Some locs \<Rightarrow> locs);
          matched = non_null locations
      in map (\<lambda>(n, loc). \<lparr>latitude = snd loc, longitude = fst loc, createdAt = now n\<rparr>)
           (zip [0..<length matched] matched))"

text \<open>When the request or the reading of its response throws, the \<open>catch\<close> block logs.\<close>

definition fetchORSSnap ::
  "((real \<times> real) list \<Rightarrow> snap_response) \<Rightarrow> (nat \<Rightarrow> (real \<times> real) list \<Rightarrow> dir_response) \<Rightarrow>
   (nat \<Rightarrow> 't) \<Rightarrow> 't point list \<Rightarrow> 't tracker \<Rightarrow> 't tracker" where
  "fetchORSSnap snap directions now pointsToSnap st =
     (let body = map (\<lambda>e. (longitude e, latitude e)) pointsToSnap;
          st' = st\<lparr>sent := sent st @ [SnapRequest body]\<rparr>
      in case snap body of
           SnapFails \<Rightarrow> st'
         | SnapLocations data \<Rightarrow>
             (let snappedPoints = snapped_points now data
              in fetchMapboxRoute directions snappedPoints (st'\<lparr>orsPoints := snappedPoints\<rparr>)))"

section \<open>processPoints (App.jsx, lines 170-224)\<close>

text \<open>\<open>!element.accuracy || element.accuracy < 15\<close>\<close>

definition accuracy_passes :: "real option \<Rightarrow> bool" where
  "accuracy_passes acc = (case acc of None \<Rightarrow> True | Some a \<Rightarrow> a = 0 \<or> a < 15)"

text \<open>The \<open>for (const element of rawData)\<close> loop that fills \<open>extractedPoints\<close>.\<close>

definition extractPoints :: "'t raw_fix list \<Rightarrow> 't point list" where
  "extractPoints rawData =
     fold (\<lambda>element extractedPoints.
             case coordinates element of
               None \<Rightarrow> extractedPoints
             | Some coords \<Rightarrow>
                 if length coords = 2 then
                   (if accuracy_passes (accuracy element) then
                      extractedPoints @
                        [\<lparr>latitude = coords ! 1, longitude = coords ! 0,
                          createdAt = location_captured_on_timestamp element\<rparr>]
                    else extractedPoints)
                 else extractedPoints)
       rawData []"

text \<open>The distance loop of lines 203-211.\<close>

definition pathDistance :: "'t point list \<Rightarrow> real" where
  "pathDistance processed =
     fold (\<lambda>i distance.
             distance + calculateDistance
               (latitude (processed ! i)) (longitude (processed ! i))
               (latitude (processed ! (i + 1))) (longitude (processed ! (i + 1))))
       [0..<length processed - 1] 0"

text \<open>
  \<open>body\<close> is \<open>body?.data\<close> when that is an array and \<open>None\<close> otherwise. The function
  returns no value; its effect is the new state.
\<close>

definition processPoints ::
  "((real \<times> real) list \<Rightarrow> snap_response) \<Rightarrow> (nat \<Rightarrow> (real \<times> real) list \<Rightarrow> dir_response) \<Rightarrow>
   (nat \<Rightarrow> 't) \<Rightarrow> 't raw_fix list option \<Rightarrow> 't tracker \<Rightarrow> 't tracker" where
  "processPoints snap directions now body st =
     (case body of
        None \<Rightarrow> st
      | Some rawData \<Rightarrow>
          (let extractedPoints = extractPoints rawData;
               st1 = st\<lparr>points := extractedPoints\<rparr>
           in if length extractedPoints < 2 then st1
              else
                (let processed = thinPoints (removeZigzags (applyKalmanFilter extractedPoints) 60) 40;
                     st2 = st1\<lparr>filteredPoints := processed\<rparr>;
                     distance = pathDistance processed;
                     st3 = st2\<lparr>totalDistance := distance\<rparr>;
                     st4 = (if length processed > 0
                            then st3\<lparr>center := (latitude (processed ! 0), longitude (processed ! 0))\<rparr>
                            else st3)
                 in fetchORSSnap snap directions now extractedPoints st4)))"

section \<open>Notions used to state the properties\<close>

text \<open>Points and fixes with natural-number timestamps, for the examples.\<close>

abbreviation pt :: "real \<Rightarrow> real \<Rightarrow> nat \<Rightarrow> nat point" where
  "pt la lo t \<equiv> \<lparr>latitude = la, longitude = lo, createdAt = t\<rparr>"

abbreviation gps_fix :: "real \<Rightarrow> real \<Rightarrow> real option \<Rightarrow> nat \<Rightarrow> nat raw_fix" where
  "gps_fix la lo acc t \<equiv>
     \<lparr>coordinates = Some [lo, la], accuracy = acc, location_captured_on_timestamp = t\<rparr>"

text \<open>
  A polyline string whose final continuation sequence is truncated: its last character
  has the continuation bit set (\<open>b >= 0x20\<close>), so the group it belongs to is not
  finished when the string ends.
\<close>

definition truncated :: "jsstring \<Rightarrow> bool" where
  "truncated encoded = (encoded \<noteq> [] \<and> js_ge (Some (int (last encoded) - 63)) 0x20)"

text \<open>
  A one-dimensional Kalman filter with a covariance of its own, following the words of
  the specification: \<open>p = p + q; k = p / (p + r); x = x + k * (m - x); p = (1 - k) * p\<close>
  once per measurement, from \<open>p = 1\<close> and \<open>x\<close> the first measurement, each
  estimate written with seven decimals.
\<close>

fun kalman_axis :: "real \<Rightarrow> real \<Rightarrow> real list \<Rightarrow> real list" where
  "kalman_axis p x [] = []"
| "kalman_axis p x (m # ms) =
     (let q = 0.00001;
          r = 0.0001;
          p1 = p + q;
          k = p1 / (p1 + r);
          x' = x + k * (m - x);
          p' = (1 - k) * p1
      in toFixed7 x' # kalman_axis p' x' ms)"

definition independent_axis_filter :: "real list \<Rightarrow> real list" where
  "independent_axis_filter ms = (case ms of [] \<Rightarrow> [] | m # rest \<Rightarrow> kalman_axis 1.0 m ms)"

text \<open>The bearing between two points and the shortest angle between two bearings.\<close>

definition point_bearing :: "'t point \<Rightarrow> 't point \<Rightarrow> real" where
  "point_bearing a b = calculateBearing (latitude a) (longitude a) (latitude b) (longitude b)"

definition shortest_angle :: "real \<Rightarrow> real \<Rightarrow> real" where
  "shortest_angle bearing1 bearing2 =
     (if \<bar>bearing2 - bearing1\<bar> > 180 then 360 - \<bar>bearing2 - bearing1\<bar> else \<bar>bearing2 - bearing1\<bar>)"

text \<open>
  The distance between two points, the greedy thinning of a sequence after a kept point
  (a point is kept when it lies at least \<open>d\<close> from the last kept one), and sequences
  whose consecutive points are at least \<open>d\<close> apart.
\<close>

definition point_distance :: "'t point \<Rightarrow> 't point \<Rightarrow> real" where
  "point_distance a b = calculateDistance (latitude a) (longitude a) (latitude b) (longitude b)"

fun greedy_thin :: "real \<Rightarrow> 't point \<Rightarrow> 't point list \<Rightarrow> 't point list" where
  "greedy_thin d kept [] = []"
| "greedy_thin d kept (c # cs) =
     (if d \<le> point_distance kept c then c # greedy_thin d c cs else greedy_thin d kept cs)"

fun spaced :: "real \<Rightarrow> 't point list \<Rightarrow> bool" where
  "spaced d (a # b # rest) = (d \<le> point_distance a b \<and> spaced d (b # rest))"
| "spaced d _ = True"

text \<open>
  The waypoints of a point; the \<open>k\<close>-th chunk of 25 of a sequence and the number of
  chunks of at least two points; the reply to the \<open>k\<close>-th chunk, the distance it
  reports and the geometry it carries; and a service that answers every chunk (no
  request throws).
\<close>

definition waypoint :: "'t point \<Rightarrow> real \<times> real" where
  "waypoint p = (longitude p, latitude p)"

definition chunk :: "'t point list \<Rightarrow> nat \<Rightarrow> (real \<times> real) list" where
  "chunk pts k = map (\<lambda>p. (longitude p, latitude p)) (take 25 (drop (25 * k) pts))"

definition chunk_count :: "nat \<Rightarrow> nat" where
  "chunk_count n = (n + 23) div 25"

definition reply :: "(nat \<Rightarrow> (real \<times> real) list \<Rightarrow> dir_response) \<Rightarrow> 't point list \<Rightarrow> nat \<Rightarrow> dir_response" where
  "reply directions pts k = directions (25 * k) (chunk pts k)"

definition reported_distance :: "dir_response \<Rightarrow> real" where
  "reported_distance r = (case r of Route distance geometry \<Rightarrow> distance | _ \<Rightarrow> 0)"

definition decoded_geometry :: "dir_response \<Rightarrow> (real \<times> real) list" where
  "decoded_geometry r = (case r of Route distance geometry \<Rightarrow> decodePolyline geometry | _ \<Rightarrow> [])"

definition answered :: "(nat \<Rightarrow> (real \<times> real) list \<Rightarrow> dir_response) \<Rightarrow> 't point list \<Rightarrow> bool" where
  "answered directions pts = list_all (\<lambda>k. reply directions pts k \<noteq> RequestFails) [0..<chunk_count (length pts)]"

text \<open>
  A well-formed fix has a two-element coordinate array; \<open>as_point\<close> is the point
  made from it; a fix passes when its accuracy is absent or below the limit.
\<close>

definition has_pair :: "'t raw_fix \<Rightarrow> bool" where
  "has_pair e = (case coordinates e of None \<Rightarrow> False | Some coords \<Rightarrow> length coords = 2)"

definition as_point :: "'t raw_fix \<Rightarrow> 't point" where
  "as_point e =
     (case coordinates e of
        None \<Rightarrow> \<lparr>latitude = 0, longitude = 0, createdAt = location_captured_on_timestamp e\<rparr>
      | Some coords \<Rightarrow>
          \<lparr>latitude = coords ! 1, longitude = coords ! 0,
           createdAt = location_captured_on_timestamp e\<rparr>)"

definition accuracy_absent_or_below :: "real \<Rightarrow> 't raw_fix \<Rightarrow> bool" where
  "accuracy_absent_or_below limit e = (case accuracy e of None \<Rightarrow> True | Some a \<Rightarrow> a < limit)"

section \<open>Properties of decodePolyline\<close>

lemma decode_group_unfold:
  "decode_group encoded index shift result =
     (if js_ge (map_option (\<lambda>c. c - 63) (charCodeAt encoded index)) 0x20
      then decode_group encoded (index + 1) (shift + 5)
             (js_or result (js_shl (js_and (nanToInt32 (map_option (\<lambda>c. c - 63) (charCodeAt encoded index))) 0x1f) shift))
      else (index + 1,
            js_or result (js_shl (js_and (nanToInt32 (map_option (\<lambda>c. c - 63) (charCodeAt encoded index))) 0x1f) shift)))"
  by (subst decode_group.simps) (simp add: Let_def)

lemma js_ge_continues:
  "js_ge (map_option (\<lambda>c. c - 63) (charCodeAt encoded index)) 0x20 \<Longrightarrow> index < length encoded"
  by (auto simp: js_ge_def charCodeAt_def split: option.splits if_splits)

lemma decode_group_past_end:
  "length encoded \<le> index \<Longrightarrow> decode_group encoded index shift result = (index + 1, toInt32 result)"
  by (subst decode_group_unfold)
     (simp add: charCodeAt_def js_ge_def nanToInt32_def js_and_def js_shl_def js_or_def toInt32_def)

lemma decode_group_bound:
  "fst (decode_group encoded index shift result) \<le> max index (length encoded) + 1"
proof (induction encoded index shift result rule: decode_group.induct)
  case (1 encoded index shift result)
  show ?case
  proof (cases "js_ge (map_option (\<lambda>c. c - 63) (charCodeAt encoded index)) 0x20")
    case True
    have "index < length encoded" using True by (rule js_ge_continues)
    with "1.IH" [OF refl refl refl refl True] True show ?thesis
      by (subst decode_group_unfold) (simp add: max_def split: if_splits)
  next
    case False
    then show ?thesis
      by (subst decode_group_unfold) simp
  qed
qed

lemma decode_loop_unfold:
  "decode_loop encoded index lat lng pts =
     (if index < length encoded then
        decode_loop encoded (fst (decode_group encoded (fst (decode_group encoded index 0 0)) 0 0))
          (lat + zigzag_decode (snd (decode_group encoded index 0 0)))
          (lng + zigzag_decode (snd (decode_group encoded (fst (decode_group encoded index 0 0)) 0 0)))
          (pts @ [(real_of_int (lat + zigzag_decode (snd (decode_group encoded index 0 0))) / 100000,
                   real_of_int (lng + zigzag_decode (snd (decode_group encoded (fst (decode_group encoded index 0 0)) 0 0))) / 100000)])
      else pts)"
  by (subst decode_loop.simps) (simp add: Let_def split: prod.splits)

lemma decode_loop_length:
  "length (decode_loop encoded index lat lng pts) \<le> length pts + (length encoded - index + 1) div 2"
proof (induction encoded index lat lng pts rule: decode_loop.induct)
  case (1 encoded index lat lng pts)
  show ?case
  proof (cases "index < length encoded")
    case True
    obtain index1 result1 where g1: "decode_group encoded index 0 0 = (index1, result1)"
      by (cases "decode_group encoded index 0 0")
    obtain index2 result2 where g2: "decode_group encoded index1 0 0 = (index2, result2)"
      by (cases "decode_group encoded index1 0 0")
    have a1: "index < index1" using decode_group_index [of index encoded 0 0] g1 by simp
    have a2: "index1 < index2" using decode_group_index [of index1 encoded 0 0] g2 by simp
    have ih: "length (decode_loop encoded index2 (lat + zigzag_decode result1) (lng + zigzag_decode result2)
        (pts @ [(real_of_int (lat + zigzag_decode result1) / 100000,
                 real_of_int (lng + zigzag_decode result2) / 100000)]))
      \<le> length (pts @ [(real_of_int (lat + zigzag_decode result1) / 100000,
                 real_of_int (lng + zigzag_decode result2) / 100000)]) + (length encoded - index2 + 1) div 2"
      using "1.IH" [OF True g1 [symmetric] refl refl refl g2 [symmetric] refl refl refl] .
    have "1 + (length encoded - index2 + 1) div 2 \<le> (length encoded - index + 1) div 2"
      using a1 a2 True by arith
    with ih show ?thesis
      by (subst decode_loop_unfold) (simp add: True g1 g2)
  next
    case False
    then show ?thesis by (subst decode_loop_unfold) simp
  qed
qed

text \<open>
  C9: decoding the string \<open>_p~iF~ps|U_ulLnnqC_mqNvxq`@\<close> (5-bit groups, continuation
  bit 0x20, zig-zag sign decode, latitude and longitude deltas accumulated separately,
  scale factor 1e5) returns exactly the three coordinate pairs (38.5, -120.2),
  (40.7, -120.95) and (43.252, -126.453).
\<close>

theorem decodePolyline_reference_example:
  "decodePolyline (codes ''_p~iF~ps|U_ulLnnqC_mqNvxq`@'') =
     [(38.5, -120.2), (40.7, -120.95), (43.252, -126.453)]"
  by code_simp

text \<open>
  C10: decodePolyline terminates on every input string, malformed and truncated ones
  included. Every iteration of the inner loop moves the scan index forward, so the index
  a group returns lies strictly beyond the one it was entered with and at most one
  position beyond the end of the string; a read at or past the end yields \<open>NaN\<close>,
  which is not a continuation value, so the group ends there at once; and the function
  returns a list with at most one point for every two characters (rounded up), without
  any raising branch.
\<close>

theorem decodePolyline_terminates:
  "index < fst (decode_group encoded index shift result) \<and>
   fst (decode_group encoded index shift result) \<le> max index (length encoded) + 1 \<and>
   (length encoded \<le> index \<longrightarrow> decode_group encoded index shift result = (index + 1, toInt32 result)) \<and>
   length (decodePolyline encoded) \<le> (length encoded + 1) div 2"
  using decode_group_index [of index encoded shift result]
    decode_group_bound [of encoded index shift result]
    decode_group_past_end [of encoded index shift result]
    decode_loop_length [of encoded 0 0 0 "[]"]
  by (simp add: decodePolyline_def)

theorem decodePolyline_terminates_witness:
  "length (codes ''_'') \<le> 1 \<and> decode_group (codes ''_'') 1 5 32 = (2, 32) \<and>
   length (decodePolyline (codes ''_'')) \<le> 1"
  using decodePolyline_terminates [of 1 "codes ''_''" 5 32]
  by (simp add: codes_def toInt32_def)

lemma decode_group_pad: "decode_group (encoded @ [63]) index shift result = decode_group encoded index shift result"
proof (induction encoded index shift result rule: decode_group.induct)
  case (1 encoded index shift result)
  let ?b = "map_option (\<lambda>c. c - 63) (charCodeAt encoded index)"
  let ?b' = "map_option (\<lambda>c. c - 63) (charCodeAt (encoded @ [63]) index)"
  have ge: "js_ge ?b' 0x20 = js_ge ?b 0x20"
    by (auto simp: js_ge_def charCodeAt_def nth_append split: option.splits)
  have nan: "nanToInt32 ?b' = nanToInt32 ?b"
    by (auto simp: nanToInt32_def charCodeAt_def nth_append toInt32_def split: option.splits)
  show ?case
  proof (cases "js_ge ?b 0x20")
    case True
    from "1.IH" [OF refl refl refl refl True] show ?thesis
      by (subst decode_group_unfold, subst (2) decode_group_unfold) (simp add: ge nan True)
  next
    case False
    show ?thesis
      by (subst decode_group_unfold, subst (2) decode_group_unfold) (simp add: ge nan False)
  qed
qed

lemma decode_group_not_at_end:
  "truncated encoded \<Longrightarrow> fst (decode_group encoded index shift result) \<noteq> length encoded"
proof (induction encoded index shift result rule: decode_group.induct)
  case (1 encoded index shift result)
  let ?b = "map_option (\<lambda>c. c - 63) (charCodeAt encoded index)"
  show ?case
  proof (cases "js_ge ?b 0x20")
    case True
    with "1.IH" [OF refl refl refl refl True "1.prems"] show ?thesis
      by (subst decode_group_unfold) simp
  next
    case False
    have "index + 1 \<noteq> length encoded"
    proof
      assume e: "index + 1 = length encoded"
      then have "index = length encoded - 1" by simp
      then have "last encoded = encoded ! index"
        using "1.prems" by (simp add: truncated_def last_conv_nth)
      with e "1.prems" have "js_ge ?b 0x20"
        by (simp add: truncated_def charCodeAt_def)
      with False show False by simp
    qed
    with False show ?thesis
      by (subst decode_group_unfold) simp
  qed
qed

lemma decode_loop_pad:
  "truncated encoded \<Longrightarrow> index \<noteq> length encoded \<Longrightarrow>
   decode_loop (encoded @ [63]) index lat lng pts = decode_loop encoded index lat lng pts"
proof (induction encoded index lat lng pts rule: decode_loop.induct)
  case (1 encoded index lat lng pts)
  show ?case
  proof (cases "index < length encoded")
    case True
    obtain index1 result1 where g1: "decode_group encoded index 0 0 = (index1, result1)"
      by (cases "decode_group encoded index 0 0")
    obtain index2 result2 where g2: "decode_group encoded index1 0 0 = (index2, result2)"
      by (cases "decode_group encoded index1 0 0")
    have ne: "index2 \<noteq> length encoded"
      using decode_group_not_at_end [OF "1.prems"(1), of index1 0 0] g2 by simp
    have ih: "decode_loop (encoded @ [63]) index2 (lat + zigzag_decode result1) (lng + zigzag_decode result2)
        (pts @ [(real_of_int (lat + zigzag_decode result1) / 100000,
                 real_of_int (lng + zigzag_decode result2) / 100000)])
      = decode_loop encoded index2 (lat + zigzag_decode result1) (lng + zigzag_decode result2)
        (pts @ [(real_of_int (lat + zigzag_decode result1) / 100000,
                 real_of_int (lng + zigzag_decode result2) / 100000)])"
      using "1.IH" [OF True g1 [symmetric] refl refl refl g2 [symmetric] refl refl refl "1.prems"(1) ne] .
    have lt: "index < Suc (length encoded)" using True by simp
    show ?thesis
      by (subst decode_loop_unfold, subst (2) decode_loop_unfold)
         (simp add: True lt decode_group_pad g1 g2 ih del: of_int_add)
  next
    case False
    with "1.prems" have "length encoded < index" by simp
    then show ?thesis
      by (subst decode_loop_unfold, subst (2) decode_loop_unfold) simp
  qed
qed

lemma decode_loop_grows: "length pts \<le> length (decode_loop encoded index lat lng pts)"
proof (induction encoded index lat lng pts rule: decode_loop.induct)
  case (1 encoded index lat lng pts)
  show ?case
  proof (cases "index < length encoded")
    case True
    obtain index1 result1 where g1: "decode_group encoded index 0 0 = (index1, result1)"
      by (cases "decode_group encoded index 0 0")
    obtain index2 result2 where g2: "decode_group encoded index1 0 0 = (index2, result2)"
      by (cases "decode_group encoded index1 0 0")
    from "1.IH" [OF True g1 [symmetric] refl refl refl g2 [symmetric] refl refl refl]
    show ?thesis
      by (subst decode_loop_unfold) (simp add: True g1 g2)
  next
    case False
    then show ?thesis by (subst decode_loop_unfold) simp
  qed
qed

lemma decodePolyline_nonempty: "encoded \<noteq> [] \<Longrightarrow> decodePolyline encoded \<noteq> []"
proof -
  assume ne: "encoded \<noteq> []"
  then have lt: "0 < length encoded" by simp
  let ?g1 = "decode_group encoded 0 0 0"
  let ?g2 = "decode_group encoded (fst ?g1) 0 0"
  have "1 \<le> length (decode_loop encoded (fst ?g2) (0 + zigzag_decode (snd ?g1)) (0 + zigzag_decode (snd ?g2))
     ([] @ [(real_of_int (0 + zigzag_decode (snd ?g1)) / 100000, real_of_int (0 + zigzag_decode (snd ?g2)) / 100000)]))"
    using decode_loop_grows [of "[] @ [(real_of_int (0 + zigzag_decode (snd ?g1)) / 100000, real_of_int (0 + zigzag_decode (snd ?g2)) / 100000)]" encoded "fst ?g2" "0 + zigzag_decode (snd ?g1)" "0 + zigzag_decode (snd ?g2)"]
    by simp
  then have "1 \<le> length (decodePolyline encoded)"
    unfolding decodePolyline_def
    by (subst decode_loop_unfold) (simp only: lt if_True)
  then show ?thesis by auto
qed

section \<open>Properties of applyKalmanFilter\<close>

lemma kalman_loop_append:
  "kalman_loop p a b pts sm = sm @ kalman_loop p a b pts []"
proof (induction pts arbitrary: p a b sm)
  case Nil
  show ?case by simp
next
  case (Cons point rest)
  show ?case
    apply (simp only: kalman_loop.simps Let_def)
    apply (subst Cons.IH)
    apply (subst (2) Cons.IH)
    apply simp
    done
qed

lemma kalman_loop_length: "length (kalman_loop p a b pts sm) = length sm + length pts"
  by (induction pts arbitrary: p a b sm) (simp_all add: Let_def)

lemma kalman_loop_createdAt:
  "map createdAt (kalman_loop p a b pts sm) = map createdAt sm @ map createdAt pts"
  by (induction pts arbitrary: p a b sm) (simp_all add: Let_def)

lemma kalman_loop_first:
  "kalman_loop p a b (point # rest) [] =
     \<lparr>latitude = toFixed7 (a + (p + 0.00001) / (p + 0.00001 + 0.0001) * (latitude point - a)),
      longitude = toFixed7 (b + ((1 - (p + 0.00001) / (p + 0.00001 + 0.0001)) * (p + 0.00001) + 0.00001) /
         ((1 - (p + 0.00001) / (p + 0.00001 + 0.0001)) * (p + 0.00001) + 0.00001 + 0.0001) * (longitude point - b)),
      createdAt = createdAt point\<rparr> # tl (kalman_loop p a b (point # rest) [])"
  apply (simp only: kalman_loop.simps Let_def)
  apply (subst kalman_loop_append)
  apply (subst (2) kalman_loop_append)
  apply (simp only: append_Nil append_Cons list.sel)
  done

lemma applyKalmanFilter_hd:
  "pts \<noteq> [] \<Longrightarrow> hd (applyKalmanFilter pts) =
     \<lparr>latitude = toFixed7 (latitude (hd pts)), longitude = toFixed7 (longitude (hd pts)),
      createdAt = createdAt (hd pts)\<rparr>"
proof (cases pts)
  case Nil
  assume "pts \<noteq> []"
  with Nil show ?thesis by simp
next
  case (Cons point rest)
  have "hd (kalman_loop 1 (latitude point) (longitude point) (point # rest) []) =
     \<lparr>latitude = toFixed7 (latitude point), longitude = toFixed7 (longitude point),
      createdAt = createdAt point\<rparr>"
    by (subst kalman_loop_first) simp
  then show ?thesis
    by (simp add: Cons applyKalmanFilter_def)
qed

lemma applyKalmanFilter_length: "length (applyKalmanFilter pts) = length pts"
  by (simp add: applyKalmanFilter_def kalman_loop_length)

lemma applyKalmanFilter_createdAt: "map createdAt (applyKalmanFilter pts) = map createdAt pts"
  by (simp add: applyKalmanFilter_def kalman_loop_createdAt)

text \<open>
  C4 (as amended): for every non-empty input sequence, the output of applyKalmanFilter
  has the length of the input, each output point keeps the timestamp of the input point
  at its position, and the first output point is the first input point with its
  coordinates rounded to seven decimals by \<open>toFixed(7)\<close>; it equals the first input
  point when that rounding leaves both coordinates unchanged.
\<close>

theorem applyKalmanFilter_length_first:
  "pts \<noteq> [] \<Longrightarrow>
   length (applyKalmanFilter pts) = length pts \<and>
   map createdAt (applyKalmanFilter pts) = map createdAt pts \<and>
   hd (applyKalmanFilter pts) =
     \<lparr>latitude = toFixed7 (latitude (hd pts)), longitude = toFixed7 (longitude (hd pts)),
      createdAt = createdAt (hd pts)\<rparr> \<and>
   (toFixed7 (latitude (hd pts)) = latitude (hd pts) \<and>
    toFixed7 (longitude (hd pts)) = longitude (hd pts) \<longrightarrow>
    hd (applyKalmanFilter pts) = hd pts)"
proof -
  assume ne: "pts \<noteq> []"
  have h: "hd (applyKalmanFilter pts) =
     \<lparr>latitude = toFixed7 (latitude (hd pts)), longitude = toFixed7 (longitude (hd pts)),
      createdAt = createdAt (hd pts)\<rparr>"
    using ne by (rule applyKalmanFilter_hd)
  have c: "toFixed7 (latitude (hd pts)) = latitude (hd pts) \<and>
      toFixed7 (longitude (hd pts)) = longitude (hd pts) \<longrightarrow>
      hd (applyKalmanFilter pts) = hd pts"
    by (simp only: h) simp
  show ?thesis
    using applyKalmanFilter_length [of pts] applyKalmanFilter_createdAt [of pts] h c by blast
qed

text \<open>The amended C4 at two fixes whose coordinates have four decimals.\<close>

theorem applyKalmanFilter_length_first_witness:
  "[pt 13.0827 80.2707 5, pt 13.083 80.271 6] \<noteq> [] \<and>
   length (applyKalmanFilter [pt 13.0827 80.2707 5, pt 13.083 80.271 6]) = 2 \<and>
   map createdAt (applyKalmanFilter [pt 13.0827 80.2707 5, pt 13.083 80.271 6]) = [5, 6] \<and>
   hd (applyKalmanFilter [pt 13.0827 80.2707 5, pt 13.083 80.271 6]) = pt 13.0827 80.2707 5"
proof -
  have ne: "[pt 13.0827 80.2707 5, pt 13.083 80.271 6] \<noteq> []" by simp
  have r1: "toFixed7 13.0827 = 13.0827" by (simp add: toFixed7_def)
  have r2: "toFixed7 80.2707 = 80.2707" by (simp add: toFixed7_def)
  from applyKalmanFilter_length_first [OF ne] r1 r2 show ?thesis
    by simp
qed

text \<open>
  C4 as stated fails: a first point of latitude 13.08271234 comes out with latitude
  13.0827123, so the first output point is not the first input point.
\<close>

theorem applyKalmanFilter_first_rounded:
  "hd (applyKalmanFilter [pt 13.08271234 80.2707 5]) = pt 13.0827123 80.2707 5 \<and>
   hd (applyKalmanFilter [pt 13.08271234 80.2707 5]) \<noteq> hd [pt 13.08271234 80.2707 5]"
  by code_simp

text \<open>
  C1: the claim has each axis keep a covariance of its own, updated once per point. The
  code keeps one variable \<open>p\<close> for both axes and updates it twice per point. On the
  latitudes 0 and 1 the code returns 0.3841556 for the second point, the gain of the
  third update of the shared \<open>p\<close>, where the filter with a covariance per axis
  returns 0.5237868, the gain of its second update.
\<close>

theorem kalman_shared_covariance:
  "map latitude (applyKalmanFilter [pt 0 0 0, pt 1 0 1]) = [0, 0.3841556] \<and>
   independent_axis_filter [0, 1] = [0, 0.5237868]"
  by code_simp

section \<open>Properties of removeZigzags\<close>

lemma fold_push_filter:
  "fold (\<lambda>i result. if P i then result @ [f i] else result) is acc = acc @ map f (filter P is)"
  by (induction "is" arbitrary: acc) simp_all

lemma turn_diff_shortest:
  "turn_diff pts i =
     shortest_angle (point_bearing (pts ! (i - 1)) (pts ! i)) (point_bearing (pts ! i) (pts ! (i + 1)))"
  by (simp add: turn_diff_def Let_def shortest_angle_def point_bearing_def)

lemma removeZigzags_short: "length pts < 3 \<Longrightarrow> removeZigzags pts t = pts"
  by (simp add: removeZigzags_def)

lemma removeZigzags_long:
  "3 \<le> length pts \<Longrightarrow>
   removeZigzags pts t =
     pts ! 0 # map ((!) pts) (filter (\<lambda>i. turn_diff pts i < t) [1..<length pts - 1])
       @ [pts ! (length pts - 1)]"
  by (simp add: removeZigzags_def fold_push_filter)

lemma sin_deg_pos: "0 < sin (pi / 180)"
  by (rule sin_gt_zero) (simp_all add: pi_gt_zero)

lemma calculateBearing_same: "calculateBearing la lo la lo = 0"
  by (simp add: calculateBearing_def toRadians_def toDegrees_def atan2_def js_rem_def mult.commute)

lemma calculateBearing_north: "calculateBearing 0 0 1 0 = 0"
  using sin_deg_pos
  by (simp add: calculateBearing_def toRadians_def toDegrees_def atan2_def js_rem_def)

lemma calculateBearing_south: "calculateBearing 1 0 0 0 = 180"
  using sin_deg_pos
  by (simp add: calculateBearing_def toRadians_def toDegrees_def atan2_def js_rem_def)

text \<open>
  C7: an input of fewer than three points is returned unchanged. For an input of at
  least three points the result is the first point, then exactly the interior points
  \<open>i\<close> (from 1 to \<open>n - 2\<close>, in order) whose turn is strictly below the threshold,
  then the last point, so the first and the last point are kept whatever the threshold;
  the turn at \<open>i\<close> is the shortest angle between the bearing from the previous point
  to point \<open>i\<close> and the bearing from point \<open>i\<close> to the next: the absolute
  difference, replaced by 360 minus it when it exceeds 180.
\<close>

theorem removeZigzags_keeps_ends_and_gentle_turns:
  "(length pts < 3 \<longrightarrow> removeZigzags pts t = pts) \<and>
   (3 \<le> length pts \<longrightarrow>
      removeZigzags pts t =
        pts ! 0 # map ((!) pts) (filter (\<lambda>i. turn_diff pts i < t) [1..<length pts - 1])
          @ [pts ! (length pts - 1)] \<and>
      hd (removeZigzags pts t) = hd pts \<and> last (removeZigzags pts t) = last pts) \<and>
   turn_diff pts i =
     shortest_angle (point_bearing (pts ! (i - 1)) (pts ! i)) (point_bearing (pts ! i) (pts ! (i + 1)))"
proof -
  have ends: "hd (removeZigzags pts t) = hd pts \<and> last (removeZigzags pts t) = last pts"
    if l: "3 \<le> length pts"
  proof -
    from l have ne: "pts \<noteq> []" by auto
    then show ?thesis
      by (simp add: removeZigzags_long [OF l] hd_conv_nth last_conv_nth)
  qed
  show ?thesis
    using removeZigzags_short [of pts t] removeZigzags_long [of pts t] ends
      turn_diff_shortest [of pts i]
    by blast
qed

text \<open>
  C7 at two inputs: two points pass through unchanged; of four points, the interior
  point that continues northwards (turn 0) is kept and the one where the trace reverses
  (turn 180) is dropped at threshold 60.
\<close>

theorem removeZigzags_keeps_ends_and_gentle_turns_witness:
  "length [pt 0 0 0, pt 1 0 1] < 3 \<and> removeZigzags [pt 0 0 0, pt 1 0 1] 60 = [pt 0 0 0, pt 1 0 1] \<and>
   3 \<le> length [pt 0 0 0, pt 0 0 1, pt 1 0 2, pt 0 0 3] \<and>
   turn_diff [pt 0 0 0, pt 0 0 1, pt 1 0 2, pt 0 0 3] 1 = 0 \<and>
   turn_diff [pt 0 0 0, pt 0 0 1, pt 1 0 2, pt 0 0 3] 2 = 180 \<and>
   removeZigzags [pt 0 0 0, pt 0 0 1, pt 1 0 2, pt 0 0 3] 60 = [pt 0 0 0, pt 0 0 1, pt 0 0 3]"
proof -
  let ?ps = "[pt 0 0 0, pt 0 0 1, pt 1 0 2, pt 0 0 3]"
  have d1: "turn_diff ?ps 1 = 0"
    using removeZigzags_keeps_ends_and_gentle_turns [of ?ps 60 1]
    by (simp add: shortest_angle_def point_bearing_def calculateBearing_north calculateBearing_same)
  have d2: "turn_diff ?ps 2 = 180"
    using removeZigzags_keeps_ends_and_gentle_turns [of ?ps 60 2]
    by (simp add: shortest_angle_def point_bearing_def calculateBearing_north calculateBearing_south)
  have u: "[1..<length ?ps - 1] = [1, 2]"
    by (simp add: upt_rec)
  have r: "removeZigzags ?ps 60 = [pt 0 0 0, pt 0 0 1, pt 0 0 3]"
    using removeZigzags_keeps_ends_and_gentle_turns [of ?ps 60 0] d1 d2
    by (simp add: u numeral_2_eq_2)
  have s: "removeZigzags [pt 0 0 0, pt 1 0 1] 60 = [pt 0 0 0, pt 1 0 1]"
    using removeZigzags_keeps_ends_and_gentle_turns [of "[pt 0 0 0, pt 1 0 1]" 60 0] by simp
  from d1 d2 r s show ?thesis by simp
qed

section \<open>Properties of thinPoints\<close>

lemma drop_as_nths: "k \<le> length xs \<Longrightarrow> map ((!) xs) [k..<length xs] = drop k xs"
  by (rule nth_equalityI) simp_all

lemma thin_fold_elements:
  "fold (\<lambda>i result.
           let lastKept = result ! (length result - 1);
               current = pts ! i;
               d = calculateDistance (latitude lastKept) (longitude lastKept)
                     (latitude current) (longitude current)
           in if d \<ge> minDistance then result @ [current] else result) is acc
   = fold (\<lambda>current result.
             if minDistance \<le> point_distance (result ! (length result - 1)) current
             then result @ [current] else result) (map ((!) pts) is) acc"
  by (induction "is" arbitrary: acc) (simp_all add: Let_def point_distance_def)

lemma thin_fold_greedy:
  "fold (\<lambda>current result.
           if minDistance \<le> point_distance (result ! (length result - 1)) current
           then result @ [current] else result) cs (acc @ [kept])
   = acc @ kept # greedy_thin minDistance kept cs"
proof (induction cs arbitrary: acc kept)
  case Nil
  show ?case by simp
next
  case (Cons c cs)
  show ?case
    using Cons.IH [of "acc @ [kept]" c] Cons.IH [of acc kept]
    by (simp add: nth_append)
qed

lemma thinPoints_greedy: "thinPoints (p # ps) d = p # greedy_thin d p ps"
proof (cases ps)
  case Nil
  then show ?thesis by (simp add: thinPoints_def)
next
  case (Cons c cs)
  have "map ((!) (p # ps)) [1..<length (p # ps)] = drop 1 (p # ps)"
    by (rule drop_as_nths) simp
  then have m: "map ((!) (p # ps)) [1..<length (p # ps)] = ps" by simp
  have len: "(length (p # ps) < 2) = False" using Cons by simp
  have "thinPoints (p # ps) d =
    fold (\<lambda>i result.
           let lastKept = result ! (length result - 1);
               current = (p # ps) ! i;
               d' = calculateDistance (latitude lastKept) (longitude lastKept)
                     (latitude current) (longitude current)
           in if d' \<ge> d then result @ [current] else result)
      [1..<length (p # ps)] [(p # ps) ! 0]"
    by (simp only: thinPoints_def len if_False)
  also have "\<dots> = fold (\<lambda>current result.
             if d \<le> point_distance (result ! (length result - 1)) current
             then result @ [current] else result)
      (map ((!) (p # ps)) [1..<length (p # ps)]) [(p # ps) ! 0]"
    by (rule thin_fold_elements)
  also have "\<dots> = fold (\<lambda>current result.
             if d \<le> point_distance (result ! (length result - 1)) current
             then result @ [current] else result) ps ([] @ [p])"
    by (simp only: m nth_Cons_0 append_Nil)
  also have "\<dots> = [] @ p # greedy_thin d p ps"
    by (rule thin_fold_greedy)
  finally show ?thesis by simp
qed

lemma greedy_thin_subseq: "subseq (greedy_thin d kept cs) cs"
  by (induction cs arbitrary: kept) auto

lemma greedy_thin_spaced: "spaced d (kept # greedy_thin d kept cs)"
  by (induction cs arbitrary: kept) auto

lemma spaced_nth: "spaced d xs \<Longrightarrow> Suc i < length xs \<Longrightarrow> d \<le> point_distance (xs ! i) (xs ! Suc i)"
proof (induction d xs arbitrary: i rule: spaced.induct)
  case (1 d a b rest)
  then show ?case by (cases i) auto
qed auto

lemma thinPoints_Nil: "thinPoints [] d = []"
  by (simp add: thinPoints_def)

lemma calculateDistance_same: "calculateDistance la lo la lo = 0"
  by (simp add: calculateDistance_def toRadians_def atan2_def)

lemma atan2_diagonal: "0 < s \<Longrightarrow> atan2 s s = pi / 4"
  by (simp add: atan2_def arctan_one)

lemma calculateDistance_quarter: "calculateDistance 0 0 0 90 = 3185500 * pi"
proof -
  have s: "sin (pi / 4) * sin (pi / 4) = 1 / 2"
    by (simp add: sin_45)
  have a: "sin (toRadians (0 - 0) / 2) * sin (toRadians (0 - 0) / 2) +
      cos (toRadians 0) * cos (toRadians 0) *
      sin (toRadians (90 - 0) / 2) * sin (toRadians (90 - 0) / 2) = 1 / 2"
    using s by (simp add: toRadians_def)
  have "calculateDistance 0 0 0 90 = 6371000 * (2 * atan2 (sqrt (1 / 2)) (sqrt (1 - 1 / 2)))"
    by (simp only: calculateDistance_def Let_def a)
  also have "\<dots> = 6371000 * (2 * atan2 (sqrt (1 / 2)) (sqrt (1 / 2)))"
    by simp
  also have "\<dots> = 6371000 * (2 * (pi / 4))"
    by (subst atan2_diagonal) simp_all
  finally show ?thesis by simp
qed

lemma thinPoints_pair_close: "point_distance p c < d \<Longrightarrow> thinPoints [p, c] d = [p]"
  by (simp add: thinPoints_greedy)

text \<open>
  C8: for every input and every threshold \<open>d\<close>, the output of thinPoints is a
  subsequence of the input; for a non-empty input it is the first point followed by the
  greedy thinning of the rest, which keeps a point exactly when its distance from the
  last kept point is at least \<open>d\<close>; any two consecutive output points are at least
  \<open>d\<close> apart; and the last input point is not kept by force: of two points closer
  than \<open>d\<close> only the first is returned.
\<close>

theorem thinPoints_greedy_subsequence:
  "subseq (thinPoints pts d) pts \<and>
   (pts \<noteq> [] \<longrightarrow> thinPoints pts d = hd pts # greedy_thin d (hd pts) (tl pts)) \<and>
   (\<forall>i. Suc i < length (thinPoints pts d) \<longrightarrow>
        d \<le> point_distance (thinPoints pts d ! i) (thinPoints pts d ! Suc i)) \<and>
   (\<forall>p c. pts = [p, c] \<and> point_distance p c < d \<longrightarrow> thinPoints pts d = [p])"
proof (cases pts)
  case Nil
  then show ?thesis by (simp add: thinPoints_Nil)
next
  case (Cons p ps)
  have g: "thinPoints pts d = p # greedy_thin d p ps"
    unfolding Cons by (rule thinPoints_greedy)
  have 1: "subseq (thinPoints pts d) pts"
    using g Cons greedy_thin_subseq [of d p ps] by simp
  have 2: "pts \<noteq> [] \<longrightarrow> thinPoints pts d = hd pts # greedy_thin d (hd pts) (tl pts)"
    using g Cons by simp
  have 3: "\<forall>i. Suc i < length (thinPoints pts d) \<longrightarrow>
        d \<le> point_distance (thinPoints pts d ! i) (thinPoints pts d ! Suc i)"
    unfolding g using spaced_nth [OF greedy_thin_spaced [of d p ps]] by blast
  have 4: "\<forall>p c. pts = [p, c] \<and> point_distance p c < d \<longrightarrow> thinPoints pts d = [p]"
    using thinPoints_pair_close by blast
  from 1 2 3 4 show ?thesis by blast
qed

text \<open>
  C8 at threshold 40: of three points, the second coincides with the first and is
  dropped, the third lies a quarter of the equator away and is kept; of the first two
  alone, the last one is dropped.
\<close>

theorem thinPoints_greedy_subsequence_witness:
  "[pt 0 0 0, pt 0 0 1, pt 0 90 2] \<noteq> [] \<and>
   thinPoints [pt 0 0 0, pt 0 0 1, pt 0 90 2] 40 = [pt 0 0 0, pt 0 90 2] \<and>
   subseq [pt 0 0 0, pt 0 90 2] [pt 0 0 0, pt 0 0 1, pt 0 90 2] \<and>
   Suc 0 < length (thinPoints [pt 0 0 0, pt 0 0 1, pt 0 90 2] 40) \<and>
   40 \<le> point_distance (pt 0 0 0) (pt 0 90 2) \<and>
   point_distance (pt 0 0 0) (pt 0 0 1) < 40 \<and>
   thinPoints [pt 0 0 0, pt 0 0 1] 40 = [pt 0 0 0]"
proof -
  have far: "point_distance (pt 0 0 s) (pt 0 90 t) = 3185500 * pi" for s t
    by (simp add: point_distance_def calculateDistance_quarter)
  have "(40::real) \<le> 3185500 * 2" by simp
  also have "\<dots> \<le> 3185500 * pi" using pi_ge_two by simp
  finally have far40: "40 \<le> point_distance (pt 0 0 0) (pt 0 90 2)" by (simp add: far)
  have near1: "point_distance (pt 0 0 s) (pt 0 0 t) = 0" for s t
    by (simp add: point_distance_def calculateDistance_same)
  have g: "greedy_thin 40 (pt 0 0 0) [pt 0 0 1, pt 0 90 2] = [pt 0 90 2]"
    using far40 by (simp add: near1 far)
  have t: "thinPoints [pt 0 0 0, pt 0 0 1, pt 0 90 2] 40 = [pt 0 0 0, pt 0 90 2]"
    using thinPoints_greedy_subsequence [of "[pt 0 0 0, pt 0 0 1, pt 0 90 2]" 40] g by simp
  have s: "subseq [pt 0 0 0, pt 0 90 2] [pt 0 0 0, pt 0 0 1, pt 0 90 2]"
    using thinPoints_greedy_subsequence [of "[pt 0 0 0, pt 0 0 1, pt 0 90 2]" 40] t by simp
  have c: "thinPoints [pt 0 0 0, pt 0 0 1] 40 = [pt 0 0 0]"
    using thinPoints_greedy_subsequence [of "[pt 0 0 0, pt 0 0 1]" 40] near1 by simp
  from t s c far40 near1 show ?thesis by simp
qed

section \<open>Properties of fetchMapboxRoute\<close>

lemma js_slice_chunk: "js_slice pts i (min (i + 25) (length pts)) = take 25 (drop i pts)"
  by (simp add: js_slice_def min_def drop_take)

lemma route_loop_unfold:
  "route_loop directions pts i allPoints totalDist reqs =
     (if i < length pts \<and> 2 \<le> length (take 25 (drop i pts)) then
        (case directions i (map (\<lambda>p. (longitude p, latitude p)) (take 25 (drop i pts))) of
           RequestFails \<Rightarrow>
             (reqs @ [DirectionsRequest (map (\<lambda>p. (longitude p, latitude p)) (take 25 (drop i pts)))],
              Inl ServiceError)
         | NoRoute \<Rightarrow>
             route_loop directions pts (i + 25) allPoints totalDist
               (reqs @ [DirectionsRequest (map (\<lambda>p. (longitude p, latitude p)) (take 25 (drop i pts)))])
         | Route distance geometry \<Rightarrow>
             route_loop directions pts (i + 25) (allPoints @ decodePolyline geometry)
               (totalDist + distance)
               (reqs @ [DirectionsRequest (map (\<lambda>p. (longitude p, latitude p)) (take 25 (drop i pts)))]))
      else (reqs, Inr (allPoints, totalDist)))"
  by (subst route_loop.simps) (auto simp: Let_def js_slice_chunk simp del: length_take)

lemma chunk_count_last: "length pts < 25 * chunk_count (length pts) + 2"
  unfolding chunk_count_def by arith

lemma chunk_count_before: "k < chunk_count (length pts) \<Longrightarrow> 25 * k + 2 \<le> length pts"
  unfolding chunk_count_def by arith

lemma route_loop_answered:
  "j \<le> chunk_count (length pts) \<Longrightarrow>
   \<forall>k. j \<le> k \<and> k < chunk_count (length pts) \<longrightarrow> reply directions pts k \<noteq> RequestFails \<Longrightarrow>
   route_loop directions pts (25 * j) allPoints totalDist reqs =
     (reqs @ map (\<lambda>k. DirectionsRequest (chunk pts k)) [j..<chunk_count (length pts)],
      Inr (allPoints @ concat (map (\<lambda>k. decoded_geometry (reply directions pts k)) [j..<chunk_count (length pts)]),
           totalDist + sum_list (map (\<lambda>k. reported_distance (reply directions pts k)) [j..<chunk_count (length pts)])))"
proof (induction "chunk_count (length pts) - j" arbitrary: j allPoints totalDist reqs)
  case 0
  then have j: "j = chunk_count (length pts)" by simp
  have neg: "(25 * j < length pts \<and> 2 \<le> length (take 25 (drop (25 * j) pts))) = False"
    using chunk_count_last [of pts] j by auto
  show ?case
    by (subst route_loop_unfold, simp only: neg if_False, simp add: j)
next
  case (Suc d)
  then have lt: "j < chunk_count (length pts)" by simp
  from chunk_count_before [OF lt] have c: "25 * j < length pts \<and> 2 \<le> length (take 25 (drop (25 * j) pts))"
    by auto
  have ans: "reply directions pts j \<noteq> RequestFails" using Suc.prems lt by simp
  have up: "[j..<chunk_count (length pts)] = j # [Suc j..<chunk_count (length pts)]"
    using lt by (simp add: upt_conv_Cons)
  have ih: "route_loop directions pts (25 * Suc j) ap td rq =
     (rq @ map (\<lambda>k. DirectionsRequest (chunk pts k)) [Suc j..<chunk_count (length pts)],
      Inr (ap @ concat (map (\<lambda>k. decoded_geometry (reply directions pts k)) [Suc j..<chunk_count (length pts)]),
           td + sum_list (map (\<lambda>k. reported_distance (reply directions pts k)) [Suc j..<chunk_count (length pts)])))"
    for ap td rq
    using Suc.hyps(1) [of "Suc j" ap td rq] Suc.hyps(2) Suc.prems lt by simp
  have step: "25 * j + 25 = 25 * Suc j" by simp
  show ?case
  proof (cases "reply directions pts j")
    case RequestFails
    with ans show ?thesis by simp
  next
    case NoRoute
    then have d: "directions (25 * j) (map (\<lambda>p. (longitude p, latitude p)) (take 25 (drop (25 * j) pts))) = NoRoute"
      by (simp add: reply_def chunk_def)
    show ?thesis
      by (subst route_loop_unfold)
         (simp only: c d step ih up, simp add: NoRoute chunk_def reported_distance_def decoded_geometry_def)
  next
    case (Route distance geometry)
    then have d: "directions (25 * j) (map (\<lambda>p. (longitude p, latitude p)) (take 25 (drop (25 * j) pts))) = Route distance geometry"
      by (simp add: reply_def chunk_def)
    show ?thesis
      by (subst route_loop_unfold)
         (simp only: c d step ih up, simp add: Route chunk_def reported_distance_def decoded_geometry_def)
  qed
qed

lemma fetchMapboxRoute_answered:
  assumes "answered directions pts"
  shows "fetchMapboxRoute directions pts st =
    st\<lparr>sent := sent st @ map (\<lambda>k. DirectionsRequest (chunk pts k)) [0..<chunk_count (length pts)],
       mapboxPoints := concat (map (\<lambda>k. decoded_geometry (reply directions pts k)) [0..<chunk_count (length pts)]),
       totalDistance := sum_list (map (\<lambda>k. reported_distance (reply directions pts k)) [0..<chunk_count (length pts)])\<rparr>"
proof -
  have "\<forall>k. 0 \<le> k \<and> k < chunk_count (length pts) \<longrightarrow> reply directions pts k \<noteq> RequestFails"
    using assms by (simp add: answered_def list_all_iff)
  from route_loop_answered [OF _ this, of "[]" 0 "sent st"] show ?thesis
    by (simp add: fetchMapboxRoute_def)
qed

lemma chunk_sizes:
  "k < chunk_count (length pts) \<Longrightarrow> 2 \<le> length (chunk pts k) \<and> length (chunk pts k) \<le> 25"
  using chunk_count_before [of k pts] by (simp add: chunk_def)

lemma concat_chunks_take:
  "concat (map (chunk pts) [0..<m]) = map (\<lambda>p. (longitude p, latitude p)) (take (25 * m) pts)"
proof (induction m)
  case 0
  show ?case by simp
next
  case (Suc m)
  have "take (25 * Suc m) pts = take (25 * m) pts @ take 25 (drop (25 * m) pts)"
    using take_add [of "25 * m" 25 pts] by (simp add: add.commute)
  with Suc show ?case by (simp add: chunk_def)
qed

lemma chunk_waypoints: "chunk pts k = map waypoint (take 25 (drop (25 * k) pts))"
  by (simp add: chunk_def waypoint_def)

lemma div_split_25:
  "(n + 23) div 25 = n div 25 + (if n mod 25 < 2 then 0 else 1)" for n :: nat
proof -
  define q where "q = n div 25"
  define r where "r = n mod 25"
  have n: "n = 25 * q + r" and r: "r < 25"
    by (simp_all add: q_def r_def)
  have "(n + 23) div 25 = (r + 23 + q * 25) div 25"
    by (simp add: n ac_simps)
  also have "\<dots> = (r + 23) div 25 + q"
    by simp
  also have "(r + 23) div 25 = (if r < 2 then 0 else 1)"
    using r by (simp add: div_eq_dividend_iff) arith
  finally show ?thesis by (simp add: q_def r_def)
qed

lemma chunks_cover:
  "concat (map (chunk pts) [0..<chunk_count (length pts)]) =
     map waypoint (if length pts mod 25 = 1 then butlast pts else pts)"
proof -
  have c: "concat (map (chunk pts) [0..<chunk_count (length pts)]) =
      map waypoint (take (25 * chunk_count (length pts)) pts)"
    by (simp add: concat_chunks_take waypoint_def)
  show ?thesis
  proof (cases "length pts mod 25 = 1")
    case True
    have "length pts = 25 * (length pts div 25) + length pts mod 25" by simp
    with True have "25 * chunk_count (length pts) = length pts - 1"
      by (simp add: chunk_count_def div_split_25)
    then show ?thesis using True c by (simp add: butlast_conv_take)
  next
    case False
    have n: "length pts = 25 * (length pts div 25) + length pts mod 25" by simp
    have r: "length pts mod 25 < 25" by simp
    have "length pts \<le> 25 * chunk_count (length pts)"
    proof (cases "length pts mod 25 < 2")
      case True
      with False have "length pts mod 25 = 0" by linarith
      with n show ?thesis by (simp add: chunk_count_def div_split_25)
    next
      case False
      have "length pts \<le> 25 * (length pts div 25) + 25" using n r by linarith
      with False show ?thesis by (simp add: chunk_count_def div_split_25)
    qed
    then show ?thesis using False c by simp
  qed
qed

lemma fetchMapboxRoute_sent:
  "sent (fetchMapboxRoute directions pts st) = fst (route_loop directions pts 0 [] 0 (sent st))"
  by (simp add: fetchMapboxRoute_def split: prod.splits sum.splits)

lemma route_loop_prefix:
  "j \<le> chunk_count (length pts) \<Longrightarrow>
   \<exists>m. j \<le> m \<and> m \<le> chunk_count (length pts) \<and>
     fst (route_loop directions pts (25 * j) allPoints totalDist reqs) =
       reqs @ map (\<lambda>k. DirectionsRequest (chunk pts k)) [j..<m]"
proof (induction "chunk_count (length pts) - j" arbitrary: j allPoints totalDist reqs)
  case 0
  then have j: "j = chunk_count (length pts)" by simp
  have neg: "(25 * j < length pts \<and> 2 \<le> length (take 25 (drop (25 * j) pts))) = False"
    using chunk_count_last [of pts] j by auto
  have "fst (route_loop directions pts (25 * j) allPoints totalDist reqs) =
      reqs @ map (\<lambda>k. DirectionsRequest (chunk pts k)) [j..<j]"
    by (subst route_loop_unfold, simp only: neg if_False, simp)
  with j show ?case by blast
next
  case (Suc d)
  then have lt: "j < chunk_count (length pts)" by simp
  from chunk_count_before [OF lt]
  have c: "25 * j < length pts \<and> 2 \<le> length (take 25 (drop (25 * j) pts))"
    by auto
  have step: "25 * j + 25 = 25 * Suc j" by simp
  let ?req = "DirectionsRequest (map (\<lambda>p. (longitude p, latitude p)) (take 25 (drop (25 * j) pts)))"
  have req: "?req = DirectionsRequest (chunk pts j)" by (simp add: chunk_def)
  have ih: "\<exists>m. Suc j \<le> m \<and> m \<le> chunk_count (length pts) \<and>
     fst (route_loop directions pts (25 * Suc j) ap td (reqs @ [?req])) =
       (reqs @ [?req]) @ map (\<lambda>k. DirectionsRequest (chunk pts k)) [Suc j..<m]" for ap td
    using Suc.hyps(1) [of "Suc j" ap td "reqs @ [?req]"] Suc.hyps(2) lt by simp
  have ext: "\<exists>m. j \<le> m \<and> m \<le> chunk_count (length pts) \<and>
       fst (route_loop directions pts (25 * Suc j) ap td (reqs @ [?req])) =
         reqs @ map (\<lambda>k. DirectionsRequest (chunk pts k)) [j..<m]" for ap td
  proof -
    from ih [of ap td] obtain m where m: "Suc j \<le> m" "m \<le> chunk_count (length pts)"
      "fst (route_loop directions pts (25 * Suc j) ap td (reqs @ [?req])) =
         (reqs @ [?req]) @ map (\<lambda>k. DirectionsRequest (chunk pts k)) [Suc j..<m]"
      by blast
    have "[j..<m] = j # [Suc j..<m]" using m(1) by (simp add: upt_conv_Cons)
    with m req show ?thesis
      by (intro exI [of _ m]) simp
  qed
  show ?case
  proof (cases "directions (25 * j) (map (\<lambda>p. (longitude p, latitude p)) (take 25 (drop (25 * j) pts)))")
    case RequestFails
    have "fst (route_loop directions pts (25 * j) allPoints totalDist reqs) =
        reqs @ map (\<lambda>k. DirectionsRequest (chunk pts k)) [j..<Suc j]"
      by (subst route_loop_unfold) (simp only: c RequestFails, simp add: chunk_def)
    with lt show ?thesis
      by (intro exI [of _ "Suc j"]) simp
  next
    case NoRoute
    have "route_loop directions pts (25 * j) allPoints totalDist reqs =
        route_loop directions pts (25 * Suc j) allPoints totalDist (reqs @ [?req])"
      by (subst route_loop_unfold) (simp only: c NoRoute step, simp)
    with ext [of allPoints totalDist] show ?thesis by simp
  next
    case (Route distance geometry)
    have "route_loop directions pts (25 * j) allPoints totalDist reqs =
        route_loop directions pts (25 * Suc j) (allPoints @ decodePolyline geometry)
          (totalDist + distance) (reqs @ [?req])"
      by (subst route_loop_unfold) (simp only: c Route step, simp)
    with ext [of "allPoints @ decodePolyline geometry" "totalDist + distance"] show ?thesis by simp
  qed
qed

lemma fetchMapboxRoute_prefix:
  "\<exists>m\<le>chunk_count (length pts).
     sent (fetchMapboxRoute directions pts st) =
       sent st @ map (\<lambda>k. DirectionsRequest (chunk pts k)) [0..<m]"
  using route_loop_prefix [of 0 pts directions "[]" 0 "sent st"]
  by (auto simp: fetchMapboxRoute_sent)

lemma one_chunk_requests:
  assumes "chunk_count (length pts) = 1"
  shows "sent (fetchMapboxRoute directions pts st) = sent st @ [DirectionsRequest (chunk pts 0)]"
proof -
  have lt: "0 < chunk_count (length pts)" using assms by simp
  from chunk_count_before [OF lt]
  have c: "0 < length pts \<and> 2 \<le> length (take 25 (drop 0 pts))" by auto
  have neg: "(25 < length pts \<and> 2 \<le> length (take 25 (drop 25 pts))) = False"
    using chunk_count_last [of pts] assms by auto
  have stop: "route_loop directions pts 25 ap td rq = (rq, Inr (ap, td))" for ap td rq
    by (subst route_loop_unfold) (simp only: neg if_False)
  have z: "(0::nat) + 25 = 25" by simp
  show ?thesis
    unfolding fetchMapboxRoute_sent
    by (subst route_loop_unfold)
       (cases "directions 0 (map (\<lambda>p. (longitude p, latitude p)) (take 25 (drop 0 pts)))";
        simp only: c z stop, simp add: chunk_def)
qed

lemma two_chunk_requests:
  assumes "chunk_count (length pts) = 2" and "reply directions pts 0 \<noteq> RequestFails"
  shows "sent (fetchMapboxRoute directions pts st) =
     sent st @ [DirectionsRequest (chunk pts 0), DirectionsRequest (chunk pts 1)]"
proof -
  have c0: "0 < length pts \<and> 2 \<le> length (take 25 (drop 0 pts))"
    using chunk_count_before [of 0 pts] assms(1) by auto
  have c1: "25 < length pts \<and> 2 \<le> length (take 25 (drop 25 pts))"
    using chunk_count_before [of 1 pts] assms(1) by auto
  have neg: "(50 < length pts \<and> 2 \<le> length (take 25 (drop 50 pts))) = False"
    using chunk_count_last [of pts] assms(1) by auto
  have stop: "route_loop directions pts 50 ap td rq = (rq, Inr (ap, td))" for ap td rq
    by (subst route_loop_unfold) (simp only: neg if_False)
  have z: "(0::nat) + 25 = 25" "(25::nat) + 25 = 50" by simp_all
  have second: "fst (route_loop directions pts 25 ap td rq) =
      rq @ [DirectionsRequest (map (\<lambda>p. (longitude p, latitude p)) (take 25 (drop 25 pts)))]"
    for ap td rq
    by (subst route_loop_unfold)
       (cases "directions 25 (map (\<lambda>p. (longitude p, latitude p)) (take 25 (drop 25 pts)))";
        simp only: c1 z stop, simp)
  have d0: "directions 0 (map (\<lambda>p. (longitude p, latitude p)) (take 25 (drop 0 pts))) \<noteq> RequestFails"
    using assms(2) by (simp add: reply_def chunk_def)
  show ?thesis
    unfolding fetchMapboxRoute_sent
    using d0
    by (subst route_loop_unfold)
       (cases "directions 0 (map (\<lambda>p. (longitude p, latitude p)) (take 25 (drop 0 pts)))";
        simp only: c0 z, simp add: second chunk_def)
qed

lemma route_loop_throws:
  "j \<le> chunk_count (length pts) \<Longrightarrow>
   \<exists>k. j \<le> k \<and> k < chunk_count (length pts) \<and> reply directions pts k = RequestFails \<Longrightarrow>
   snd (route_loop directions pts (25 * j) allPoints totalDist reqs) = Inl ServiceError"
proof (induction "chunk_count (length pts) - j" arbitrary: j allPoints totalDist reqs)
  case 0
  then show ?case by auto
next
  case (Suc d)
  then have lt: "j < chunk_count (length pts)" by simp
  from chunk_count_before [OF lt]
  have c: "25 * j < length pts \<and> 2 \<le> length (take 25 (drop (25 * j) pts))"
    by auto
  have step: "25 * j + 25 = 25 * Suc j" by simp
  have later: "\<exists>k. Suc j \<le> k \<and> k < chunk_count (length pts) \<and> reply directions pts k = RequestFails"
    if "reply directions pts j \<noteq> RequestFails"
  proof -
    from Suc.prems(2) obtain k where k: "j \<le> k" "k < chunk_count (length pts)"
      "reply directions pts k = RequestFails" by blast
    with that have "k \<noteq> j" by auto
    with k show ?thesis by (intro exI [of _ k]) simp
  qed
  have ih: "snd (route_loop directions pts (25 * Suc j) ap td rq) = Inl ServiceError"
    if "reply directions pts j \<noteq> RequestFails" for ap td rq
    using Suc.hyps(1) [of "Suc j" ap td rq] Suc.hyps(2) lt later [OF that] by simp
  show ?case
  proof (cases "reply directions pts j")
    case RequestFails
    then have d: "directions (25 * j) (map (\<lambda>p. (longitude p, latitude p)) (take 25 (drop (25 * j) pts))) = RequestFails"
      by (simp add: reply_def chunk_def)
    show ?thesis
      by (subst route_loop_unfold) (simp only: c d, simp)
  next
    case NoRoute
    then have d: "directions (25 * j) (map (\<lambda>p. (longitude p, latitude p)) (take 25 (drop (25 * j) pts))) = NoRoute"
      by (simp add: reply_def chunk_def)
    have n: "reply directions pts j \<noteq> RequestFails" using NoRoute by simp
    show ?thesis
      by (subst route_loop_unfold) (simp only: c d step if_True dir_response.case ih [OF n] simp_thms)
  next
    case (Route distance geometry)
    then have d: "directions (25 * j) (map (\<lambda>p. (longitude p, latitude p)) (take 25 (drop (25 * j) pts))) = Route distance geometry"
      by (simp add: reply_def chunk_def)
    have n: "reply directions pts j \<noteq> RequestFails" using Route by simp
    show ?thesis
      by (subst route_loop_unfold) (simp only: c d step if_True dir_response.case ih [OF n] simp_thms)
  qed
qed

lemma fetchMapboxRoute_throws:
  assumes "\<not> answered directions pts"
  shows "fetchMapboxRoute directions pts st =
     st\<lparr>sent := fst (route_loop directions pts 0 [] 0 (sent st))\<rparr>"
proof -
  from assms have "\<exists>k. 0 \<le> k \<and> k < chunk_count (length pts) \<and> reply directions pts k = RequestFails"
    by (auto simp: answered_def list_all_iff)
  from route_loop_throws [OF _ this, of "[]" 0 "sent st"]
  have "snd (route_loop directions pts 0 [] 0 (sent st)) = Inl ServiceError" by simp
  then show ?thesis
    by (cases "route_loop directions pts 0 [] 0 (sent st)") (simp add: fetchMapboxRoute_def)
qed

lemma single_chunk_route:
  assumes "chunk_count (length pts) = 1"
  shows "mapboxPoints (fetchMapboxRoute (\<lambda>i w. Route distance encoded) pts st) = decodePolyline encoded"
proof -
  have a: "answered (\<lambda>i w. Route distance encoded) pts"
    by (simp add: answered_def reply_def list_all_iff)
  show ?thesis
    by (simp add: fetchMapboxRoute_answered [OF a] assms reply_def decoded_geometry_def)
qed

text \<open>
  C6: the directions requests of a run are the chunks of the sequence in order, the
  \<open>k\<close>-th chunk being the points from index \<open>25 k\<close> on, at most 25 and at least 2
  of them; the chunks together are the whole sequence, without its last point when that
  point alone would form the final chunk. A run requests the first chunks up to the
  first request that throws, and all of them when none throws; then the route and the
  distance accumulated from them are published, also when a final chunk of one point
  has ended the loop, which is no error. So 30 points give exactly two requests, of 25
  and of 5 points, when the first request does not throw, and 26 points give exactly one
  request, of 25 points, whatever the service answers.
\<close>

theorem route_chunks_of_25:
  "(\<exists>m\<le>chunk_count (length pts).
      sent (fetchMapboxRoute directions pts st) =
        sent st @ map (\<lambda>k. DirectionsRequest (chunk pts k)) [0..<m]) \<and>
   (\<forall>k<chunk_count (length pts).
      chunk pts k = map waypoint (take 25 (drop (25 * k) pts)) \<and>
      2 \<le> length (chunk pts k) \<and> length (chunk pts k) \<le> 25) \<and>
   concat (map (chunk pts) [0..<chunk_count (length pts)]) =
     map waypoint (if length pts mod 25 = 1 then butlast pts else pts) \<and>
   (answered directions pts \<longrightarrow>
      sent (fetchMapboxRoute directions pts st) =
        sent st @ map (\<lambda>k. DirectionsRequest (chunk pts k)) [0..<chunk_count (length pts)] \<and>
      mapboxPoints (fetchMapboxRoute directions pts st) =
        concat (map (\<lambda>k. decoded_geometry (reply directions pts k))
          [0..<chunk_count (length pts)]) \<and>
      totalDistance (fetchMapboxRoute directions pts st) =
        sum_list (map (\<lambda>k. reported_distance (reply directions pts k))
          [0..<chunk_count (length pts)])) \<and>
   (length pts = 30 \<and> reply directions pts 0 \<noteq> RequestFails \<longrightarrow>
      sent (fetchMapboxRoute directions pts st) =
        sent st @ [DirectionsRequest (map waypoint (take 25 pts)),
                   DirectionsRequest (map waypoint (drop 25 pts))]) \<and>
   (length pts = 26 \<longrightarrow>
      sent (fetchMapboxRoute directions pts st) =
        sent st @ [DirectionsRequest (map waypoint (take 25 pts))])"
proof -
  have 2: "\<forall>k<chunk_count (length pts).
      chunk pts k = map waypoint (take 25 (drop (25 * k) pts)) \<and>
      2 \<le> length (chunk pts k) \<and> length (chunk pts k) \<le> 25"
    using chunk_sizes [of _ pts] chunk_waypoints [of pts] by blast
  have 4: "answered directions pts \<longrightarrow>
      sent (fetchMapboxRoute directions pts st) =
        sent st @ map (\<lambda>k. DirectionsRequest (chunk pts k)) [0..<chunk_count (length pts)] \<and>
      mapboxPoints (fetchMapboxRoute directions pts st) =
        concat (map (\<lambda>k. decoded_geometry (reply directions pts k))
          [0..<chunk_count (length pts)]) \<and>
      totalDistance (fetchMapboxRoute directions pts st) =
        sum_list (map (\<lambda>k. reported_distance (reply directions pts k))
          [0..<chunk_count (length pts)])"
    by (simp add: fetchMapboxRoute_answered)
  have 5: "length pts = 30 \<and> reply directions pts 0 \<noteq> RequestFails \<longrightarrow>
      sent (fetchMapboxRoute directions pts st) =
        sent st @ [DirectionsRequest (map waypoint (take 25 pts)),
                   DirectionsRequest (map waypoint (drop 25 pts))]"
  proof
    assume a: "length pts = 30 \<and> reply directions pts 0 \<noteq> RequestFails"
    then have "chunk_count (length pts) = 2" by (simp add: chunk_count_def)
    from two_chunk_requests [OF this, of directions st] a show
      "sent (fetchMapboxRoute directions pts st) =
        sent st @ [DirectionsRequest (map waypoint (take 25 pts)),
                   DirectionsRequest (map waypoint (drop 25 pts))]"
      by (simp add: chunk_waypoints)
  qed
  have 6: "length pts = 26 \<longrightarrow>
      sent (fetchMapboxRoute directions pts st) =
        sent st @ [DirectionsRequest (map waypoint (take 25 pts))]"
  proof
    assume a: "length pts = 26"
    then have "chunk_count (length pts) = 1" by (simp add: chunk_count_def)
    from one_chunk_requests [OF this, of directions st] show
      "sent (fetchMapboxRoute directions pts st) =
        sent st @ [DirectionsRequest (map waypoint (take 25 pts))]"
      by (simp add: chunk_waypoints)
  qed
  from fetchMapboxRoute_prefix [of pts directions st] 2 chunks_cover [of pts] 4 5 6
  show ?thesis by blast
qed

text \<open>
  C6 at 30 and at 26 points, with a service that reports 7 metres and one point for
  every chunk, and at 26 points with a service whose requests all throw.
\<close>

theorem route_chunks_of_25_witness:
  "answered (\<lambda>i w. Route 7 (codes ''??'')) (replicate 30 (pt 0 0 0)) \<and>
   sent (fetchMapboxRoute (\<lambda>i w. Route 7 (codes ''??'')) (replicate 30 (pt 0 0 0)) initial_tracker) =
     [DirectionsRequest (replicate 25 (0, 0)), DirectionsRequest (replicate 5 (0, 0))] \<and>
   mapboxPoints (fetchMapboxRoute (\<lambda>i w. Route 7 (codes ''??'')) (replicate 30 (pt 0 0 0)) initial_tracker) =
     [(0, 0), (0, 0)] \<and>
   totalDistance (fetchMapboxRoute (\<lambda>i w. Route 7 (codes ''??'')) (replicate 30 (pt 0 0 0)) initial_tracker) = 14 \<and>
   sent (fetchMapboxRoute (\<lambda>i w. RequestFails) (replicate 26 (pt 0 0 0)) initial_tracker) =
     [DirectionsRequest (replicate 25 (0, 0))] \<and>
   answered (\<lambda>i w. Route 7 (codes ''??'')) (replicate 26 (pt 0 0 0)) \<and>
   mapboxPoints (fetchMapboxRoute (\<lambda>i w. Route 7 (codes ''??'')) (replicate 26 (pt 0 0 0)) initial_tracker) =
     [(0, 0)] \<and>
   totalDistance (fetchMapboxRoute (\<lambda>i w. Route 7 (codes ''??'')) (replicate 26 (pt 0 0 0)) initial_tracker) = 7"
proof -
  let ?d = "\<lambda>(i::nat) (w::(real \<times> real) list). Route 7 (codes ''??'')"
  let ?f = "\<lambda>(i::nat) (w::(real \<times> real) list). RequestFails"
  have a30: "answered ?d (replicate 30 (pt 0 0 0))"
    by (simp add: answered_def reply_def list_all_iff)
  have a26: "answered ?d (replicate 26 (pt 0 0 0))"
    by (simp add: answered_def reply_def list_all_iff)
  have c30: "chunk_count 30 = 2" and c26: "chunk_count 26 = 1"
    by (simp_all add: chunk_count_def)
  have u: "[0..<2] = [0, Suc 0]" by (simp add: numeral_2_eq_2)
  have g: "decodePolyline (codes ''??'') = [(0, 0)]" by code_simp
  from route_chunks_of_25 [of "replicate 30 (pt 0 0 0)" ?d initial_tracker]
    route_chunks_of_25 [of "replicate 26 (pt 0 0 0)" ?d initial_tracker]
    route_chunks_of_25 [of "replicate 26 (pt 0 0 0)" ?f initial_tracker]
    a30 a26
  show ?thesis
    by (simp add: c30 c26 u g reply_def reported_distance_def decoded_geometry_def waypoint_def
        initial_tracker_def take_replicate drop_replicate)
qed

text \<open>
  C3 (as amended): for every polyline string whose final continuation sequence is
  truncated, decodePolyline neither loops nor raises. The characters missing at the end
  are read as \<open>NaN\<close>, which ends the group and adds no bits, so the truncated string
  decodes to exactly the coordinates of the same string completed with the character
  \<open>?\<close> (a final group of zero bits), and at least one point is returned. The chunk's
  contribution is not aborted: a chunk whose geometry is the truncated string adds the
  decoded points to the route.
\<close>

theorem decodePolyline_truncated_as_padded:
  "truncated encoded \<Longrightarrow>
   decodePolyline encoded = decodePolyline (encoded @ codes ''?'') \<and>
   decodePolyline encoded \<noteq> [] \<and>
   (chunk_count (length pts) = 1 \<longrightarrow>
      mapboxPoints (fetchMapboxRoute (\<lambda>i w. Route distance encoded) pts st) =
        decodePolyline encoded)"
proof -
  assume t: "truncated encoded"
  then have ne: "encoded \<noteq> []" by (simp add: truncated_def)
  then have "0 \<noteq> length encoded" by simp
  from decode_loop_pad [OF t this]
  have "decodePolyline encoded = decodePolyline (encoded @ codes ''?'')"
    by (simp add: decodePolyline_def codes_def)
  with decodePolyline_nonempty [OF ne] single_chunk_route [of pts distance encoded st]
  show ?thesis by blast
qed

text \<open>
  The amended C3 at the string \<open>_p~iF~p\<close>, which ends inside the longitude group,
  as the geometry of a chunk of two points.
\<close>

theorem decodePolyline_truncated_as_padded_witness:
  "truncated (codes ''_p~iF~p'') \<and>
   decodePolyline (codes ''_p~iF~p'') = decodePolyline (codes ''_p~iF~p'' @ codes ''?'') \<and>
   decodePolyline (codes ''_p~iF~p'') \<noteq> [] \<and>
   chunk_count (length [pt 0 0 0, pt 0 0 1]) = 1 \<and>
   mapboxPoints (fetchMapboxRoute (\<lambda>i w. Route 500 (codes ''_p~iF~p''))
      [pt 0 0 0, pt 0 0 1] initial_tracker) = decodePolyline (codes ''_p~iF~p'')"
proof -
  have t: "truncated (codes ''_p~iF~p'')"
    by (simp add: truncated_def codes_def js_ge_def)
  have c: "chunk_count (length [pt 0 0 0, pt 0 0 1]) = 1"
    by (simp add: chunk_count_def)
  from decodePolyline_truncated_as_padded [OF t, of "[pt 0 0 0, pt 0 0 1]" 500 initial_tracker] t c
  show ?thesis
    by blast
qed

text \<open>
  C3 as stated fails: the string \<open>_p~iF~p\<close> is truncated, yet decodePolyline returns
  a point for it, and fetchMapboxRoute appends that point to the route of a chunk whose
  geometry it is.
\<close>

theorem truncated_polyline_is_decoded:
  "truncated (codes ''_p~iF~p'') \<and>
   decodePolyline (codes ''_p~iF~p'') = [(38.5, -0.00288)] \<and>
   mapboxPoints (fetchMapboxRoute (\<lambda>i w. Route 500 (codes ''_p~iF~p''))
      [pt 0 0 0, pt 0 0 1] initial_tracker) = [(38.5, -0.00288)]"
  by code_simp

section \<open>Properties of processPoints\<close>

lemma accuracy_passes_iff: "accuracy_passes (accuracy e) = accuracy_absent_or_below 15 e"
  by (auto simp: accuracy_passes_def accuracy_absent_or_below_def split: option.splits)

lemma extract_fold:
  "list_all has_pair rawData \<Longrightarrow>
   fold (\<lambda>element extractedPoints.
             case coordinates element of
               None \<Rightarrow> extractedPoints
             | Some coords \<Rightarrow>
                 if length coords = 2 then
                   (if accuracy_passes (accuracy element) then
                      extractedPoints @
                        [\<lparr>latitude = coords ! 1, longitude = coords ! 0,
                          createdAt = location_captured_on_timestamp element\<rparr>]
                    else extractedPoints)
                 else extractedPoints)
       rawData acc
   = acc @ map as_point (filter (accuracy_absent_or_below 15) rawData)"
proof (induction rawData arbitrary: acc)
  case Nil
  show ?case by simp
next
  case (Cons e rest)
  from Cons.prems obtain coords where c: "coordinates e = Some coords" "length coords = 2"
    by (auto simp: has_pair_def split: option.splits)
  from Cons.prems have r: "list_all has_pair rest" by simp
  show ?case
    by (simp add: c Cons.IH [OF r] accuracy_passes_iff as_point_def)
qed

lemma extractPoints_filter:
  "list_all has_pair rawData \<Longrightarrow>
   extractPoints rawData = map as_point (filter (accuracy_absent_or_below 15) rawData)"
  unfolding extractPoints_def by (simp add: extract_fold)

lemma processPoints_few:
  "length (extractPoints rawData) < 2 \<Longrightarrow>
   processPoints snap directions now (Some rawData) st = st\<lparr>points := extractPoints rawData\<rparr>"
  by (simp add: processPoints_def Let_def)

lemma processPoints_enough:
  assumes "2 \<le> length (extractPoints rawData)"
    and "snap (map waypoint (extractPoints rawData)) = SnapLocations data"
    and "answered directions (snapped_points now data)"
  shows "totalDistance (processPoints snap directions now (Some rawData) st) =
     sum_list (map (\<lambda>k. reported_distance (reply directions (snapped_points now data) k))
       [0..<chunk_count (length (snapped_points now data))])"
proof -
  have l: "\<not> length (extractPoints rawData) < 2" using assms(1) by simp
  have s: "snap (map (\<lambda>e. (longitude e, latitude e)) (extractPoints rawData)) = SnapLocations data"
    using assms(2) by (simp add: waypoint_def [abs_def])
  show ?thesis
    by (simp add: processPoints_def fetchORSSnap_def Let_def l s
        fetchMapboxRoute_answered [OF assms(3)])
qed

text \<open>
  C2 (as amended): in every run in which no directions request throws, the total
  distance that fetchMapboxRoute leaves is the sum of the distances reported for the
  chunks that returned a route, whatever the total distance was before; in particular
  the path length that processPoints computed over the smoothed and thinned points is
  replaced by that sum, not added to it. In a run in which a directions request throws,
  neither the route nor the total distance is set, and the earlier path length stays.
\<close>

theorem directions_total_replaces_refined_distance:
  "(answered directions pts \<longrightarrow>
      totalDistance (fetchMapboxRoute directions pts st) =
        sum_list (map (\<lambda>k. reported_distance (reply directions pts k))
          [0..<chunk_count (length pts)]) \<and>
      (2 \<le> length (extractPoints rawData) \<and>
       snap (map waypoint (extractPoints rawData)) = SnapLocations data \<and>
       snapped_points now data = pts \<longrightarrow>
       totalDistance (processPoints snap directions now (Some rawData) st) =
         sum_list (map (\<lambda>k. reported_distance (reply directions pts k))
           [0..<chunk_count (length pts)]))) \<and>
   (\<not> answered directions pts \<longrightarrow>
      totalDistance (fetchMapboxRoute directions pts st) = totalDistance st \<and>
      mapboxPoints (fetchMapboxRoute directions pts st) = mapboxPoints st)"
proof -
  have 1: "answered directions pts \<longrightarrow>
      totalDistance (fetchMapboxRoute directions pts st) =
        sum_list (map (\<lambda>k. reported_distance (reply directions pts k))
          [0..<chunk_count (length pts)])"
    by (simp add: fetchMapboxRoute_answered)
  have 2: "answered directions pts \<longrightarrow>
      (2 \<le> length (extractPoints rawData) \<and>
       snap (map waypoint (extractPoints rawData)) = SnapLocations data \<and>
       snapped_points now data = pts \<longrightarrow>
       totalDistance (processPoints snap directions now (Some rawData) st) =
         sum_list (map (\<lambda>k. reported_distance (reply directions pts k))
           [0..<chunk_count (length pts)]))"
    using processPoints_enough [of rawData snap data directions now st] by auto
  have 3: "\<not> answered directions pts \<longrightarrow>
      totalDistance (fetchMapboxRoute directions pts st) = totalDistance st \<and>
      mapboxPoints (fetchMapboxRoute directions pts st) = mapboxPoints st"
    by (simp add: fetchMapboxRoute_throws)
  from 1 2 3 show ?thesis by blast
qed

text \<open>
  The amended C2 at a run with two fixes, two snapped points and one chunk, for which
  the service reports 1234.5 metres, and at the same chunk with a request that throws.
\<close>

theorem directions_total_replaces_refined_distance_witness:
  "answered (\<lambda>i w. Route 1234.5 (codes ''??'')) [pt 13.08 80.27 0, pt 13.09 80.28 0] \<and>
   2 \<le> length (extractPoints [gps_fix 0 0 None 1, gps_fix 0 0 None 2]) \<and>
   snapped_points (\<lambda>n. 0) (Some [Some (80.27, 13.08), None, Some (80.28, 13.09)]) =
     [pt 13.08 80.27 0, pt 13.09 80.28 0] \<and>
   totalDistance (fetchMapboxRoute (\<lambda>i w. Route 1234.5 (codes ''??''))
      [pt 13.08 80.27 0, pt 13.09 80.28 0] (initial_tracker\<lparr>totalDistance := 1000\<rparr>)) = 1234.5 \<and>
   totalDistance (processPoints (\<lambda>body. SnapLocations (Some [Some (80.27, 13.08), None, Some (80.28, 13.09)]))
      (\<lambda>i w. Route 1234.5 (codes ''??'')) (\<lambda>n. 0)
      (Some [gps_fix 0 0 None 1, gps_fix 0 0 None 2]) (initial_tracker\<lparr>totalDistance := 1000\<rparr>)) = 1234.5 \<and>
   \<not> answered (\<lambda>i w. RequestFails) [pt 13.08 80.27 0, pt 13.09 80.28 0] \<and>
   totalDistance (fetchMapboxRoute (\<lambda>i w. RequestFails)
      [pt 13.08 80.27 0, pt 13.09 80.28 0] (initial_tracker\<lparr>totalDistance := 1000\<rparr>)) = 1000"
proof -
  let ?d = "\<lambda>(i::nat) (w::(real \<times> real) list). Route 1234.5 (codes ''??'')"
  let ?f = "\<lambda>(i::nat) (w::(real \<times> real) list). RequestFails"
  let ?pts = "[pt 13.08 80.27 0, pt 13.09 80.28 0]"
  let ?raw = "[gps_fix 0 0 None 1, gps_fix 0 0 None 2]"
  let ?data = "Some [Some (80.27, 13.08), None, Some (80.28, 13.09)] :: (real \<times> real) option list option"
  have a: "answered ?d ?pts"
    by (simp add: answered_def reply_def list_all_iff)
  have n: "\<not> answered ?f ?pts"
    by (simp add: answered_def reply_def chunk_count_def)
  have e: "2 \<le> length (extractPoints ?raw)"
    by (simp add: extractPoints_def accuracy_passes_def)
  have sp: "snapped_points (\<lambda>n. 0) ?data = ?pts"
    by (simp add: snapped_points_def upt_rec)
  from directions_total_replaces_refined_distance [of ?d ?pts
      "initial_tracker\<lparr>totalDistance := 1000\<rparr>" ?raw "\<lambda>body. SnapLocations ?data" ?data "\<lambda>n. 0"]
    directions_total_replaces_refined_distance [of ?f ?pts
      "initial_tracker\<lparr>totalDistance := 1000\<rparr>" ?raw "\<lambda>body. SnapLocations ?data" ?data "\<lambda>n. 0"]
    a n e sp
  show ?thesis
    by (simp add: chunk_count_def reply_def reported_distance_def)
qed

text \<open>
  C2 as stated fails: with 30 snapped points, a first chunk for which the service
  reports 500 metres and a second request that throws, the routing stage has run and a
  chunk has completed, yet the total distance is still the 1000 metres it held before.
\<close>

theorem failed_request_keeps_refined_distance:
  "totalDistance
     (fetchMapboxRoute (\<lambda>i w. if i = 0 then Route 500 (codes ''??'') else RequestFails)
        (replicate 30 (pt 0 0 0)) (initial_tracker\<lparr>totalDistance := 1000\<rparr>)) = 1000 \<and>
   sent
     (fetchMapboxRoute (\<lambda>i w. if i = 0 then Route 500 (codes ''??'') else RequestFails)
        (replicate 30 (pt 0 0 0)) (initial_tracker\<lparr>totalDistance := 1000\<rparr>)) =
     [DirectionsRequest (replicate 25 (0, 0)), DirectionsRequest (replicate 5 (0, 0))]"
  by code_simp

lemma first_run_two_fixes:
  "processPoints (\<lambda>body. SnapLocations (Some [Some (0, 0), Some (0, 0)]))
      (\<lambda>i w. Route 500 (codes ''??'')) (\<lambda>n. 0)
      (Some [gps_fix 0 0 None 1, gps_fix 0 0 None 2]) initial_tracker =
   \<lparr>points = [pt 0 0 1, pt 0 0 2], filteredPoints = [pt 0 0 1],
    orsPoints = [pt 0 0 0, pt 0 0 0], mapboxPoints = [(0, 0)], totalDistance = 500,
    center = (0, 0),
    sent = [SnapRequest [(0, 0), (0, 0)], DirectionsRequest [(0, 0), (0, 0)]]\<rparr>"
proof -
  let ?d = "\<lambda>(i::nat) (w::(real \<times> real) list). Route 500 (codes ''??'')"
  have e: "extractPoints [gps_fix 0 0 None 1, gps_fix 0 0 None 2] = [pt 0 0 1, pt 0 0 2]"
    by (simp add: extractPoints_def accuracy_passes_def)
  have k: "applyKalmanFilter [pt 0 0 1, pt 0 0 2] = [pt 0 0 1, pt 0 0 2]"
    by code_simp
  have z: "removeZigzags [pt 0 0 1, pt 0 0 2] 60 = [pt 0 0 1, pt 0 0 2]"
    by (rule removeZigzags_short) simp
  have t: "thinPoints [pt 0 0 1, pt 0 0 2] 40 = [pt 0 0 1]"
    by (rule thinPoints_pair_close) (simp add: point_distance_def calculateDistance_same)
  have p: "thinPoints (removeZigzags (applyKalmanFilter [pt 0 0 1, pt 0 0 2]) 60) 40 = [pt 0 0 1]"
    by (simp only: k z t)
  have d: "pathDistance [pt 0 0 1] = 0"
    by (simp add: pathDistance_def)
  have sp: "snapped_points (\<lambda>n. 0) (Some [Some (0, 0), Some (0, 0)]) = [pt 0 0 0, pt 0 0 0]"
    by (simp add: snapped_points_def upt_rec)
  have a: "answered ?d [pt 0 0 0, pt 0 0 0]"
    by (simp add: answered_def reply_def list_all_iff)
  have g: "decodePolyline (codes ''??'') = [(0, 0)]" by code_simp
  have c: "chunk_count (length [pt 0 0 0, pt 0 0 0]) = 1" by (simp add: chunk_count_def)
  have r: "fetchMapboxRoute ?d [pt 0 0 0, pt 0 0 0] st =
      st\<lparr>sent := sent st @ [DirectionsRequest [(0, 0), (0, 0)]],
         mapboxPoints := [(0, 0)], totalDistance := 500\<rparr>" for st :: "nat tracker"
    by (simp only: fetchMapboxRoute_answered [OF a] c)
       (simp add: reply_def chunk_def decoded_geometry_def reported_distance_def g)
  show ?thesis
    by (simp only: processPoints_def option.case Let_def e p d)
       (simp add: fetchORSSnap_def sp r initial_tracker_def)
qed

text \<open>
  C5 (as amended): the points extracted from well-formed fixes are exactly the fixes
  whose accuracy is absent or strictly below 15, in their order; and when fewer than two
  fixes pass, processPoints skips all downstream processing and raises no error: it
  stores the surviving fixes as the raw points and changes nothing else. The refined,
  snapped and routed sequences and the distance are therefore empty (and no request has
  been sent) on a first run, from the initial state, and are those of the earlier run
  otherwise.
\<close>

theorem fewer_than_two_fixes_stop:
  "list_all has_pair rawData \<Longrightarrow>
   extractPoints rawData = map as_point (filter (accuracy_absent_or_below 15) rawData) \<and>
   (length (filter (accuracy_absent_or_below 15) rawData) < 2 \<longrightarrow>
      processPoints snap directions now (Some rawData) st =
        st\<lparr>points := map as_point (filter (accuracy_absent_or_below 15) rawData)\<rparr> \<and>
      filteredPoints (processPoints snap directions now (Some rawData) initial_tracker) = [] \<and>
      orsPoints (processPoints snap directions now (Some rawData) initial_tracker) = [] \<and>
      mapboxPoints (processPoints snap directions now (Some rawData) initial_tracker) = [] \<and>
      totalDistance (processPoints snap directions now (Some rawData) initial_tracker) = 0 \<and>
      sent (processPoints snap directions now (Some rawData) initial_tracker) = [])"
  using processPoints_few [of rawData snap directions now st]
    processPoints_few [of rawData snap directions now initial_tracker]
  by (simp add: extractPoints_filter initial_tracker_def)

text \<open>
  The amended C5 at the three fixes of accuracy 5, 20 and 8, of which the second is
  dropped, and at two fixes of which one passes: from a state that holds an earlier
  refined path and distance only the raw points change, and from the initial state the
  refined and routed sequences are empty and the distance is 0.
\<close>

theorem fewer_than_two_fixes_stop_witness:
  "list_all has_pair [gps_fix 13.0827 80.2707 (Some 5) 1, gps_fix 13.0830 80.2710 (Some 20) 2,
     gps_fix 13.0835 80.2715 (Some 8) 3] \<and>
   extractPoints [gps_fix 13.0827 80.2707 (Some 5) 1, gps_fix 13.0830 80.2710 (Some 20) 2,
     gps_fix 13.0835 80.2715 (Some 8) 3] = [pt 13.0827 80.2707 1, pt 13.0835 80.2715 3] \<and>
   list_all has_pair [gps_fix 13.0827 80.2707 None 1, gps_fix 13.0830 80.2710 (Some 15) 2] \<and>
   length (filter (accuracy_absent_or_below 15)
     [gps_fix 13.0827 80.2707 None 1, gps_fix 13.0830 80.2710 (Some 15) 2]) < 2 \<and>
   extractPoints [gps_fix 13.0827 80.2707 None 1, gps_fix 13.0830 80.2710 (Some 15) 2] =
     [pt 13.0827 80.2707 1] \<and>
   processPoints (\<lambda>body. SnapFails) (\<lambda>i w. RequestFails) (\<lambda>n. 0)
     (Some [gps_fix 13.0827 80.2707 None 1, gps_fix 13.0830 80.2710 (Some 15) 2])
     (initial_tracker\<lparr>filteredPoints := [pt 0 0 1], totalDistance := 500\<rparr>) =
     initial_tracker\<lparr>filteredPoints := [pt 0 0 1], totalDistance := 500,
       points := [pt 13.0827 80.2707 1]\<rparr> \<and>
   filteredPoints (processPoints (\<lambda>body. SnapFails) (\<lambda>i w. RequestFails) (\<lambda>n. 0)
     (Some [gps_fix 13.0827 80.2707 None 1, gps_fix 13.0830 80.2710 (Some 15) 2])
     (initial_tracker :: nat tracker)) = [] \<and>
   mapboxPoints (processPoints (\<lambda>body. SnapFails) (\<lambda>i w. RequestFails) (\<lambda>n. 0)
     (Some [gps_fix 13.0827 80.2707 None 1, gps_fix 13.0830 80.2710 (Some 15) 2])
     (initial_tracker :: nat tracker)) = [] \<and>
   totalDistance (processPoints (\<lambda>body. SnapFails) (\<lambda>i w. RequestFails) (\<lambda>n. 0)
     (Some [gps_fix 13.0827 80.2707 None 1, gps_fix 13.0830 80.2710 (Some 15) 2])
     (initial_tracker :: nat tracker)) = 0 \<and>
   sent (processPoints (\<lambda>body. SnapFails) (\<lambda>i w. RequestFails) (\<lambda>n. 0)
     (Some [gps_fix 13.0827 80.2707 None 1, gps_fix 13.0830 80.2710 (Some 15) 2])
     (initial_tracker :: nat tracker)) = []"
proof -
  let ?three = "[gps_fix 13.0827 80.2707 (Some 5) 1, gps_fix 13.0830 80.2710 (Some 20) 2,
     gps_fix 13.0835 80.2715 (Some 8) 3]"
  let ?two = "[gps_fix 13.0827 80.2707 None 1, gps_fix 13.0830 80.2710 (Some 15) 2]"
  let ?st = "initial_tracker\<lparr>filteredPoints := [pt 0 0 1], totalDistance := 500\<rparr> :: nat tracker"
  have w3: "list_all has_pair ?three" by (simp add: has_pair_def)
  have w2: "list_all has_pair ?two" by (simp add: has_pair_def)
  have f2: "length (filter (accuracy_absent_or_below 15) ?two) < 2"
    by (simp add: accuracy_absent_or_below_def)
  from fewer_than_two_fixes_stop [OF w3, of "\<lambda>body. SnapFails" "\<lambda>i w. RequestFails" "\<lambda>n. 0" ?st]
    fewer_than_two_fixes_stop [OF w2, of "\<lambda>body. SnapFails" "\<lambda>i w. RequestFails" "\<lambda>n. 0" ?st]
    w3 w2 f2
  show ?thesis
    by (simp add: accuracy_absent_or_below_def as_point_def)
qed

text \<open>
  C5 as stated fails: after a first run with two fixes, whose refined path has one point
  and whose route has one point and 500 metres, a second run in which one fix of two
  passes leaves that refined path, that route and that distance in place, so the result
  is not empty.
\<close>

theorem second_run_keeps_previous_result:
  "length (extractPoints [gps_fix 5 5 (Some 20) 3, gps_fix 1 1 None 4]) < 2 \<and>
   filteredPoints
     (processPoints (\<lambda>body. SnapLocations (Some [Some (0, 0), Some (0, 0)]))
        (\<lambda>i w. Route 500 (codes ''??'')) (\<lambda>n. 0)
        (Some [gps_fix 5 5 (Some 20) 3, gps_fix 1 1 None 4])
        (processPoints (\<lambda>body. SnapLocations (Some [Some (0, 0), Some (0, 0)]))
           (\<lambda>i w. Route 500 (codes ''??'')) (\<lambda>n. 0)
           (Some [gps_fix 0 0 None 1, gps_fix 0 0 None 2]) initial_tracker)) = [pt 0 0 1] \<and>
   mapboxPoints
     (processPoints (\<lambda>body. SnapLocations (Some [Some (0, 0), Some (0, 0)]))
        (\<lambda>i w. Route 500 (codes ''??'')) (\<lambda>n. 0)
        (Some [gps_fix 5 5 (Some 20) 3, gps_fix 1 1 None 4])
        (processPoints (\<lambda>body. SnapLocations (Some [Some (0, 0), Some (0, 0)]))
           (\<lambda>i w. Route 500 (codes ''??'')) (\<lambda>n. 0)
           (Some [gps_fix 0 0 None 1, gps_fix 0 0 None 2]) initial_tracker)) = [(0, 0)] \<and>
   totalDistance
     (processPoints (\<lambda>body. SnapLocations (Some [Some (0, 0), Some (0, 0)]))
        (\<lambda>i w. Route 500 (codes ''??'')) (\<lambda>n. 0)
        (Some [gps_fix 5 5 (Some 20) 3, gps_fix 1 1 None 4])
        (processPoints (\<lambda>body. SnapLocations (Some [Some (0, 0), Some (0, 0)]))
           (\<lambda>i w. Route 500 (codes ''??'')) (\<lambda>n. 0)
           (Some [gps_fix 0 0 None 1, gps_fix 0 0 None 2]) initial_tracker)) = 500"
proof -
  have e: "extractPoints [gps_fix 5 5 (Some 20) 3, gps_fix 1 1 None 4] = [pt 1 1 4]"
    by (simp add: extractPoints_def accuracy_passes_def)
  then have l: "length (extractPoints [gps_fix 5 5 (Some 20) 3, gps_fix 1 1 None 4]) < 2"
    by simp
  show ?thesis
    by (simp only: processPoints_few [OF l] first_run_two_fixes) (simp add: e)
qed

end
